theory Spec2Isabelle
  imports Complex_Main "HOL-Library.AList" "HOL-Library.Multiset"
begin

section \<open>tilt2transform: a rigid transform between two tomograms\<close>

text \<open>
  A shallow embedding of \<^verbatim>\<open>src/tilt2transform.py\<close>. The program reads two alignment
  files (AreTomo \<^verbatim>\<open>.aln\<close> or IMOD \<^verbatim>\<open>.xf\<close>), takes the per-axis median of the
  differences of rotation and translation, and writes a 3x4 transform as text.

  Conventions of the model:
  \<^item> A Python \<^verbatim>\<open>float\<close> is a \<^typ>\<open>real\<close>: arithmetic is exact, and the non-finite
    values (\<^verbatim>\<open>inf\<close>, \<^verbatim>\<open>nan\<close>) and the sign of zero have no counterpart.
  \<^item> A Python \<^verbatim>\<open>int\<close> is an \<^typ>\<open>int\<close>.
  \<^item> A Python \<^verbatim>\<open>str\<close> is a \<^typ>\<open>string\<close>, each \<^typ>\<open>char\<close> read as the code point
    of that number (0 to 255).
  \<^item> The builtins \<^verbatim>\<open>int()\<close> and \<^verbatim>\<open>float()\<close> applied to a string are parameters of
    the model (record \<open>builtins\<close>); \<open>None\<close> stands for \<^verbatim>\<open>ValueError\<close>.
  \<^item> A \<^verbatim>\<open>dict\<close> is an association list in insertion order, updated by
    \<^const>\<open>AList.update\<close> (a repeated key keeps its place and takes the new value).
  \<^item> The file system is a map from paths to the text of the files.
  \<^item> An exception and \<^verbatim>\<open>sys.exit\<close> are values of the type \<open>abort\<close>.
\<close>

subsection \<open>Text: whitespace, \<^verbatim>\<open>str.strip\<close>, \<^verbatim>\<open>str.split\<close>, the lines of a file\<close>

text \<open>
  \<^verbatim>\<open>str.isspace\<close> on the code points below 256: tab, line feed, vertical tab, form
  feed, carriage return, the separators 0x1C to 0x1F, space, NEL (0x85) and the
  no-break space (0xA0).
\<close>

definition is_space :: "char \<Rightarrow> bool" where
  "is_space c \<longleftrightarrow> of_char c \<in> {9, 10, 11, 12, 13, 28, 29, 30, 31, 32, 133, 160 :: nat}"

text \<open>\<^verbatim>\<open>line.strip()\<close>: whitespace removed at both ends.\<close>

definition strip :: "string \<Rightarrow> string" where
  "strip s = rev (dropWhile is_space (rev (dropWhile is_space s)))"

text \<open>
  \<^verbatim>\<open>line.split()\<close> with no argument: the maximal runs of characters that are not
  whitespace, in order; no empty field.
\<close>

function split_ws :: "string \<Rightarrow> string list" where
  "split_ws s =
     (case dropWhile is_space s of
        [] \<Rightarrow> []
      | c # cs \<Rightarrow>
          takeWhile (\<lambda>x. \<not> is_space x) (c # cs)
            # split_ws (dropWhile (\<lambda>x. \<not> is_space x) (c # cs)))"
  by pat_completeness auto
termination
proof (relation "measure length", goal_cases)
  case 1
  show ?case by simp
next
  case (2 s c cs)
  have nsp: "\<not> is_space c"
    using 2 hd_dropWhile [of is_space s] by (metis list.sel(1) list.simps(3))
  have "length (dropWhile (\<lambda>x. \<not> is_space x) (c # cs)) \<le> length cs"
    using nsp by (simp add: length_dropWhile_le)
  also have "length cs < length (c # cs)"
    by simp
  also have "length (c # cs) \<le> length s"
    using 2 length_dropWhile_le [of is_space s] by simp
  finally show ?case by simp
qed

declare split_ws.simps [simp del]

text \<open>\<^verbatim>\<open>line.startswith('#')\<close>.\<close>

definition startswith_hash :: "string \<Rightarrow> bool" where
  "startswith_hash s = (case s of [] \<Rightarrow> False | c # _ \<Rightarrow> c = CHR ''#'')"

text \<open>
  Reading a file in text mode: universal newlines turn \<^verbatim>\<open>\r\n\<close> and a lone
  \<^verbatim>\<open>\r\<close> into \<^verbatim>\<open>\n\<close>, and iterating over the file yields the lines, each with
  its line feed (the last one without, when the file does not end with one).
\<close>

fun universal_newlines :: "string \<Rightarrow> string" where
  "universal_newlines [] = []"
| "universal_newlines [c] = (if c = CHR 0x0D then [CHR 0x0A] else [c])"
| "universal_newlines (c # d # cs) =
     (if c = CHR 0x0D \<and> d = CHR 0x0A then CHR 0x0A # universal_newlines cs
      else if c = CHR 0x0D then CHR 0x0A # universal_newlines (d # cs)
      else c # universal_newlines (d # cs))"

fun keep_lines :: "string \<Rightarrow> string list" where
  "keep_lines [] = []"
| "keep_lines (c # cs) =
     (if c = CHR 0x0A then [c] # keep_lines cs
      else (case keep_lines cs of [] \<Rightarrow> [[c]] | l # ls \<Rightarrow> (c # l) # ls))"

definition file_lines :: "string \<Rightarrow> string list" where
  "file_lines txt = keep_lines (universal_newlines txt)"

subsection \<open>Values, builtins, errors, messages\<close>

text \<open>
  \<^verbatim>\<open>int(s)\<close> and \<^verbatim>\<open>float(s)\<close> on a string: \<open>None\<close> where Python raises
  \<^verbatim>\<open>ValueError\<close>.
\<close>

record builtins =
  py_int :: "string \<Rightarrow> int option"
  py_float :: "string \<Rightarrow> real option"

text \<open>An \<^verbatim>\<open>.aln\<close> record \<^verbatim>\<open>(rot, tx, ty, tilt)\<close>, and the \<^verbatim>\<open>dict\<close> from section index to record.\<close>

type_synonym aln_record = "real \<times> real \<times> real \<times> real"
type_synonym aln_dict = "(int \<times> aln_record) list"

text \<open>An \<^verbatim>\<open>.xf\<close> entry \<^verbatim>\<open>(rot_deg, dx, dy)\<close>.\<close>

type_synonym xf_entry = "real \<times> real \<times> real"

datatype exn = ValueError | TypeError | FileNotFoundError | KeyError | StatisticsError

text \<open>
  What the program prints or passes to \<^verbatim>\<open>sys.exit\<close>, with the values it interpolates:
  \<^item> \<open>No_common_tilt_indices\<close>: \<^verbatim>\<open>No common tilt indices in the two .aln files\<close>;
  \<^item> \<open>No_entries_within c\<close>: \<^verbatim>\<open>No entries within +-{args.tilt_cutoff} deg of zero-tilt\<close>;
  \<^item> \<open>Could_not_parse_xf\<close>: \<^verbatim>\<open>Could not parse any entries from one of the .xf files\<close>;
  \<^item> \<open>Different_lengths n\<close>: \<^verbatim>\<open>Different lengths: using first {n} entries of each\<close>;
  \<^item> \<open>Wrote_transform p\<close>: \<^verbatim>\<open>Wrote rigid transform to {args.out}\<close>;
  \<^item> \<open>Summary dR dX dY z\<close>: the line with the three deltas and the flip-Z flag.
\<close>

datatype message =
    No_common_tilt_indices
  | No_entries_within real
  | Could_not_parse_xf
  | Different_lengths nat
  | Wrote_transform string
  | Summary real real real bool

text \<open>
  How a run ends early: \<^verbatim>\<open>sys.exit(msg)\<close> (the message on stderr, exit status 1) or an
  exception that nothing catches (a traceback, exit status 1).
\<close>

datatype abort = SysExit message | Uncaught exn

fun exit_status :: "abort option \<Rightarrow> nat" where
  "exit_status None = 0"
| "exit_status (Some (SysExit m)) = 1"
| "exit_status (Some (Uncaught e)) = 1"

subsection \<open>Files\<close>

text \<open>
  The file system maps a path to the text of the file there. \<^verbatim>\<open>open(path)\<close> raises
  \<^verbatim>\<open>TypeError\<close> when \<^verbatim>\<open>path\<close> is \<^verbatim>\<open>None\<close> (an option that was not given) and
  \<^verbatim>\<open>FileNotFoundError\<close> when no file is there. Other failures of the operating system
  (permissions, a directory, a text that does not decode) are not modelled.
\<close>

type_synonym filesystem = "string \<rightharpoonup> string"

definition open_read :: "filesystem \<Rightarrow> string option \<Rightarrow> exn + string" where
  "open_read fs path =
     (case path of
        None \<Rightarrow> Inl TypeError
      | Some p \<Rightarrow> (case fs p of None \<Rightarrow> Inl FileNotFoundError | Some txt \<Rightarrow> Inr txt))"

subsection \<open>\<^verbatim>\<open>parse_aln\<close>\<close>

text \<open>
  The body of the loop on one line: \<open>Skip\<close> is \<^verbatim>\<open>continue\<close> (a blank line or a
  comment), \<open>Stop\<close> is \<^verbatim>\<open>break\<close> (fewer than 5 fields, or a field that does not
  convert), \<open>Row\<close> is the record stored.
\<close>

datatype 'a scanned = Skip | Stop | Row 'a

definition aln_line :: "builtins \<Rightarrow> string \<Rightarrow> (int \<times> aln_record) scanned" where
  "aln_line b l =
     (let line = strip l in
      if line = [] \<or> startswith_hash line then Skip
      else
        let parts = split_ws line in
        if length parts < 5 then Stop
        else
          (case py_int b (parts ! 0) of None \<Rightarrow> Stop | Some sec \<Rightarrow>
          (case py_float b (parts ! 1) of None \<Rightarrow> Stop | Some rot \<Rightarrow>
          (case py_float b (parts ! 2) of None \<Rightarrow> Stop | Some tx \<Rightarrow>
          (case py_float b (parts ! 3) of None \<Rightarrow> Stop | Some ty \<Rightarrow>
          (case py_float b (parts ! 4) of None \<Rightarrow> Stop | Some tilt \<Rightarrow>
             Row (sec, (rot, tx, ty, tilt))))))))"

fun aln_loop :: "builtins \<Rightarrow> string list \<Rightarrow> aln_dict \<Rightarrow> aln_dict" where
  "aln_loop b [] d = d"
| "aln_loop b (l # ls) d =
     (case aln_line b l of
        Skip \<Rightarrow> aln_loop b ls d
      | Stop \<Rightarrow> d
      | Row (sec, r) \<Rightarrow> aln_loop b ls (AList.update sec r d))"

definition parse_aln :: "builtins \<Rightarrow> filesystem \<Rightarrow> string option \<Rightarrow> exn + aln_dict" where
  "parse_aln b fs path =
     (case open_read fs path of
        Inl e \<Rightarrow> Inl e
      | Inr txt \<Rightarrow> Inr (aln_loop b (file_lines txt) []))"

subsection \<open>\<^verbatim>\<open>parse_xf\<close>\<close>

text \<open>
  \<^verbatim>\<open>math.degrees\<close>, \<^verbatim>\<open>math.radians\<close> and \<^verbatim>\<open>math.atan2\<close> on the reals
  (\<^verbatim>\<open>atan2(0, 0)\<close> is 0, and \<^verbatim>\<open>atan2(0, x)\<close> is \<open>pi\<close> for a negative \<open>x\<close>).
\<close>

definition degrees :: "real \<Rightarrow> real" where
  "degrees x = x * (180 / pi)"

definition radians :: "real \<Rightarrow> real" where
  "radians x = x * (pi / 180)"

definition atan2 :: "real \<Rightarrow> real \<Rightarrow> real" where
  "atan2 y x =
     (if 0 < x then arctan (y / x)
      else if x < 0 then (if 0 \<le> y then arctan (y / x) + pi else arctan (y / x) - pi)
      else if 0 < y then pi / 2
      else if y < 0 then - (pi / 2)
      else 0)"

text \<open>
  The body of the loop on one line: \<open>Inr None\<close> is \<^verbatim>\<open>continue\<close> (a blank line, a
  comment or fewer than 6 fields), \<open>Inr (Some e)\<close> the entry appended, \<open>Inl ValueError\<close>
  the exception of \<^verbatim>\<open>float\<close>, which \<^verbatim>\<open>parse_xf\<close> does not catch.
\<close>

definition xf_line :: "builtins \<Rightarrow> string \<Rightarrow> exn + xf_entry option" where
  "xf_line b l =
     (let line = strip l in
      if line = [] \<or> startswith_hash line then Inr None
      else
        let vals = split_ws line in
        if length vals < 6 then Inr None
        else
          (case py_float b (vals ! 0) of None \<Rightarrow> Inl ValueError | Some a11 \<Rightarrow>
          (case py_float b (vals ! 1) of None \<Rightarrow> Inl ValueError | Some a12 \<Rightarrow>
          (case py_float b (vals ! 2) of None \<Rightarrow> Inl ValueError | Some a21 \<Rightarrow>
          (case py_float b (vals ! 3) of None \<Rightarrow> Inl ValueError | Some a22 \<Rightarrow>
          (case py_float b (vals ! 4) of None \<Rightarrow> Inl ValueError | Some dx \<Rightarrow>
          (case py_float b (vals ! 5) of None \<Rightarrow> Inl ValueError | Some dy \<Rightarrow>
             Inr (Some (degrees (atan2 a21 a11), dx, dy)))))))))"

fun xf_loop :: "builtins \<Rightarrow> string list \<Rightarrow> xf_entry list \<Rightarrow> exn + xf_entry list" where
  "xf_loop b [] entries = Inr entries"
| "xf_loop b (l # ls) entries =
     (case xf_line b l of
        Inl e \<Rightarrow> Inl e
      | Inr None \<Rightarrow> xf_loop b ls entries
      | Inr (Some e) \<Rightarrow> xf_loop b ls (entries @ [e]))"

definition parse_xf :: "builtins \<Rightarrow> filesystem \<Rightarrow> string option \<Rightarrow> exn + xf_entry list" where
  "parse_xf b fs path =
     (case open_read fs path of
        Inl e \<Rightarrow> Inl e
      | Inr txt \<Rightarrow> xf_loop b (file_lines txt) [])"

subsection \<open>\<^verbatim>\<open>statistics.median\<close>\<close>

text \<open>
  The library function: the data sorted; \<^verbatim>\<open>StatisticsError\<close> on no data; the middle
  value for an odd number of values, the mean of the two middle values for an even one.
\<close>

definition median :: "real list \<Rightarrow> exn + real" where
  "median data =
     (let srt = sort data; n = length srt in
      if n = 0 then Inl StatisticsError
      else if n mod 2 = 1 then Inr (srt ! (n div 2))
      else Inr ((srt ! (n div 2 - 1) + srt ! (n div 2)) / 2))"

text \<open>The three calls \<^verbatim>\<open>dR = median(drots); dX = median(dtxs); dY = median(dtys)\<close>.\<close>

definition medians :: "real list \<Rightarrow> real list \<Rightarrow> real list \<Rightarrow> abort + real \<times> real \<times> real" where
  "medians drots dtxs dtys =
     (case median drots of Inl e \<Rightarrow> Inl (Uncaught e) | Inr dR \<Rightarrow>
        (case median dtxs of Inl e \<Rightarrow> Inl (Uncaught e) | Inr dX \<Rightarrow>
           (case median dtys of Inl e \<Rightarrow> Inl (Uncaught e) | Inr dY \<Rightarrow> Inr (dR, dX, dY))))"

subsection \<open>The two modes of \<^verbatim>\<open>main\<close>\<close>

text \<open>
  \<^verbatim>\<open>.aln\<close> mode, the loop \<^verbatim>\<open>for sec in secs\<close>: the three lists grow together, by the
  differences at the sections whose tilt in the first file is within the cutoff.
  \<^verbatim>\<open>d1[sec]\<close> raises \<^verbatim>\<open>KeyError\<close> on a key that is not there.
\<close>

fun aln_deltas ::
  "real \<Rightarrow> aln_dict \<Rightarrow> aln_dict \<Rightarrow> int list \<Rightarrow> real list \<times> real list \<times> real list
    \<Rightarrow> exn + real list \<times> real list \<times> real list" where
  "aln_deltas cutoff d1 d2 [] acc = Inr acc"
| "aln_deltas cutoff d1 d2 (sec # secs) (drots, dtxs, dtys) =
     (case map_of d1 sec of
        None \<Rightarrow> Inl KeyError
      | Some (rot1, tx1, ty1, tilt1) \<Rightarrow>
          (case map_of d2 sec of
             None \<Rightarrow> Inl KeyError
           | Some (rot2, tx2, ty2, tilt2) \<Rightarrow>
               if \<bar>tilt1\<bar> \<le> cutoff
               then aln_deltas cutoff d1 d2 secs
                      (drots @ [rot2 - rot1], dtxs @ [tx2 - tx1], dtys @ [ty2 - ty1])
               else aln_deltas cutoff d1 d2 secs (drots, dtxs, dtys)))"

text \<open>Lines 105 to 120: from the two dictionaries to the estimate.\<close>

definition aln_mode :: "real \<Rightarrow> aln_dict \<Rightarrow> aln_dict \<Rightarrow> abort + real \<times> real \<times> real" where
  "aln_mode cutoff d1 d2 =
     (let secs = sorted_list_of_set (set (map fst d1) \<inter> set (map fst d2)) in
      if secs = [] then Inl (SysExit No_common_tilt_indices)
      else
        (case aln_deltas cutoff d1 d2 secs ([], [], []) of
           Inl e \<Rightarrow> Inl (Uncaught e)
         | Inr (drots, dtxs, dtys) \<Rightarrow>
             if drots = [] then Inl (SysExit (No_entries_within cutoff))
             else medians drots dtxs dtys))"

text \<open>
  Lines 126 to 137: from the two lists of entries to the estimate and what is printed
  on the way. Every index of \<^verbatim>\<open>range(n)\<close> is below both lengths, so no read is out of
  range.
\<close>

definition xf_mode ::
  "xf_entry list \<Rightarrow> xf_entry list \<Rightarrow> abort + (real \<times> real \<times> real) \<times> message list" where
  "xf_mode xf1 xf2 =
     (let n1 = length xf1; n2 = length xf2 in
      if n1 = 0 \<or> n2 = 0 then Inl (SysExit Could_not_parse_xf)
      else
        let n = min n1 n2;
            printed = (if n1 \<noteq> n2 then [Different_lengths n] else []);
            drots = map (\<lambda>i. fst (xf2 ! i) - fst (xf1 ! i)) [0..<n];
            dtxs = map (\<lambda>i. fst (snd (xf2 ! i)) - fst (snd (xf1 ! i))) [0..<n];
            dtys = map (\<lambda>i. snd (snd (xf2 ! i)) - snd (snd (xf1 ! i))) [0..<n]
        in (case medians drots dtxs dtys of
              Inl e \<Rightarrow> Inl e
            | Inr est \<Rightarrow> Inr (est, printed)))"

subsection \<open>\<^verbatim>\<open>build_transform\<close>\<close>

text \<open>
  The format specifications \<^verbatim>\<open>.6f\<close> and \<^verbatim>\<open> .6f\<close> on a real: the absolute value times
  \<open>10\<^sup>6\<close> rounded to the nearest integer (a tie to the even one), written with six digits
  after the point; a minus sign for a negative value, and with the space flag a space
  otherwise.
\<close>

definition digit_char :: "nat \<Rightarrow> char" where
  "digit_char d = ''0123456789'' ! d"

primrec dec_fixed :: "nat \<Rightarrow> nat \<Rightarrow> string" where
  "dec_fixed 0 n = []"
| "dec_fixed (Suc w) n = dec_fixed w (n div 10) @ [digit_char (n mod 10)]"

function dec_nat :: "nat \<Rightarrow> string" where
  "dec_nat n = (if n < 10 then [digit_char n] else dec_nat (n div 10) @ [digit_char (n mod 10)])"
  by pat_completeness auto
termination
  by (relation "measure id") auto

declare dec_nat.simps [simp del]

definition round_half_even :: "real \<Rightarrow> nat" where
  "round_half_even y =
     (let n = nat \<lfloor>y\<rfloor>; f = y - of_nat n in
      if f < 1 / 2 then n
      else if 1 / 2 < f then n + 1
      else if even n then n else n + 1)"

definition digits_6f :: "real \<Rightarrow> string" where
  "digits_6f x =
     (let r = round_half_even (\<bar>x\<bar> * 10 ^ 6) in
      dec_nat (r div 10 ^ 6) @ ''.'' @ dec_fixed 6 (r mod 10 ^ 6))"

definition fmt_6f :: "real \<Rightarrow> string" where
  "fmt_6f x = (if x < 0 then ''-'' else []) @ digits_6f x"

definition fmt_space_6f :: "real \<Rightarrow> string" where
  "fmt_space_6f x = (if x < 0 then ''-'' else '' '') @ digits_6f x"

text \<open>\<^verbatim>\<open>"\n".join(lines)\<close>.\<close>

fun join_nl :: "string list \<Rightarrow> string" where
  "join_nl [] = []"
| "join_nl [l] = l"
| "join_nl (l # m # ls) = l @ [CHR 0x0A] @ join_nl (m # ls)"

definition build_transform :: "real \<Rightarrow> real \<Rightarrow> real \<Rightarrow> bool \<Rightarrow> string" where
  "build_transform dR dX dY flip_z =
     (let theta = radians dR;
          c = cos theta;
          s = sin theta;
          zsign = (if flip_z then - 1 else 1);
          lines =
            [fmt_space_6f c @ '' '' @ fmt_space_6f (- s) @ ''  0.000000 '' @ fmt_space_6f dX,
             fmt_space_6f s @ '' '' @ fmt_space_6f c @ ''  0.000000 '' @ fmt_space_6f dY,
             ''0.000000  0.000000 '' @ fmt_space_6f zsign @ ''  0.000000'']
      in join_nl lines @ [CHR 0x0A])"

subsection \<open>\<^verbatim>\<open>main\<close>\<close>

text \<open>
  The namespace \<^verbatim>\<open>args\<close> that \<^verbatim>\<open>parse_args\<close> returns: an option that was not given is
  \<^verbatim>\<open>None\<close>. The two mutually exclusive, required groups accept exactly one of
  \<^verbatim>\<open>--aln1\<close>, \<^verbatim>\<open>--xf1\<close> and exactly one of \<^verbatim>\<open>--aln2\<close>, \<^verbatim>\<open>--xf2\<close>.
\<close>

record args =
  aln1 :: "string option"
  xf1 :: "string option"
  aln2 :: "string option"
  xf2 :: "string option"
  out :: string
  tilt_cutoff :: real
  flip_z :: bool

definition accepted :: "args \<Rightarrow> bool" where
  "accepted a \<longleftrightarrow> (aln1 a = None) \<noteq> (xf1 a = None) \<and> (aln2 a = None) \<noteq> (xf2 a = None)"

text \<open>The truth value of an optional string: \<^verbatim>\<open>None\<close> and the empty string are false.\<close>

definition truthy :: "string option \<Rightarrow> bool" where
  "truthy p = (case p of None \<Rightarrow> False | Some s \<Rightarrow> s \<noteq> [])"

text \<open>
  Lines 101 to 137, the \<^verbatim>\<open>if\<close> with its two branches: the estimate
  \<^verbatim>\<open>(dR, dX, dY)\<close> and what was printed, or the way the run ended.
\<close>

definition estimate ::
  "builtins \<Rightarrow> filesystem \<Rightarrow> args \<Rightarrow> abort + (real \<times> real \<times> real) \<times> message list" where
  "estimate b fs a =
     (if truthy (aln1 a) \<and> truthy (aln2 a) then
        (case parse_aln b fs (aln1 a) of Inl e \<Rightarrow> Inl (Uncaught e) | Inr d1 \<Rightarrow>
           (case parse_aln b fs (aln2 a) of Inl e \<Rightarrow> Inl (Uncaught e) | Inr d2 \<Rightarrow>
              (case aln_mode (tilt_cutoff a) d1 d2 of
                 Inl e \<Rightarrow> Inl e
               | Inr est \<Rightarrow> Inr (est, []))))
      else
        (case parse_xf b fs (xf1 a) of Inl e \<Rightarrow> Inl (Uncaught e) | Inr e1 \<Rightarrow>
           (case parse_xf b fs (xf2 a) of Inl e \<Rightarrow> Inl (Uncaught e) | Inr e2 \<Rightarrow>
              xf_mode e1 e2)))"

text \<open>
  The whole run: how it ended (\<open>None\<close> for a normal end), the file system after it and
  the lines on stdout. The output file is written after the estimate, and the two
  closing lines are printed after that. Opening the output file for writing is taken to
  succeed: the file system of the model takes a text at every path.
\<close>

definition main :: "builtins \<Rightarrow> filesystem \<Rightarrow> args \<Rightarrow> abort option \<times> filesystem \<times> message list" where
  "main b fs a =
     (case estimate b fs a of
        Inl e \<Rightarrow> (Some e, fs, [])
      | Inr ((dR, dX, dY), printed) \<Rightarrow>
          (None,
           fs(out a \<mapsto> build_transform dR dX dY (flip_z a)),
           printed @ [Wrote_transform (out a), Summary dR dX dY (flip_z a)]))"

section \<open>Notions of the specification\<close>

subsection \<open>Lines of an \<^verbatim>\<open>.xf\<close> file\<close>

text \<open>
  A qualifying line is neither blank nor a comment and has at least 6 fields. Its
  entry is read from the first 6 fields.
\<close>

definition qualifying :: "string \<Rightarrow> bool" where
  "qualifying l \<longleftrightarrow>
     strip l \<noteq> [] \<and> \<not> startswith_hash (strip l) \<and> 6 \<le> length (split_ws (strip l))"

definition xf_fields :: "builtins \<Rightarrow> string \<Rightarrow> real option list" where
  "xf_fields b l = map (py_float b) (take 6 (split_ws (strip l)))"

definition xf_entry_of :: "builtins \<Rightarrow> string \<Rightarrow> xf_entry" where
  "xf_entry_of b l =
     (let v = map the (xf_fields b l) in (degrees (atan2 (v ! 2) (v ! 0)), v ! 4, v ! 5))"

subsection \<open>Lines of an \<^verbatim>\<open>.aln\<close> file\<close>

text \<open>
  A line is skipped when it is blank or a comment. A line that is not skipped is
  malformed when it has fewer than 5 fields, or field 0 is not an integer, or one of the
  fields 1 to 4 is not a float. A line that is neither holds a record.
\<close>

definition skipped :: "string \<Rightarrow> bool" where
  "skipped l \<longleftrightarrow> strip l = [] \<or> startswith_hash (strip l)"

definition malformed :: "builtins \<Rightarrow> string \<Rightarrow> bool" where
  "malformed b l \<longleftrightarrow>
     \<not> skipped l \<and>
     (let parts = split_ws (strip l) in
      length parts < 5 \<or> py_int b (parts ! 0) = None \<or>
      (\<exists>i \<in> {1, 2, 3, 4}. py_float b (parts ! i) = None))"

definition aln_record_of :: "builtins \<Rightarrow> string \<Rightarrow> int \<times> aln_record" where
  "aln_record_of b l =
     (let parts = split_ws (strip l) in
      (the (py_int b (parts ! 0)),
       the (py_float b (parts ! 1)), the (py_float b (parts ! 2)),
       the (py_float b (parts ! 3)), the (py_float b (parts ! 4))))"

definition aln_records :: "builtins \<Rightarrow> string list \<Rightarrow> (int \<times> aln_record) list" where
  "aln_records b ls = map (aln_record_of b) (filter (\<lambda>l. \<not> skipped l) ls)"

text \<open>\<^verbatim>\<open>d[sec] = (rot, tx, ty, tilt)\<close> for a record.\<close>

definition store :: "aln_dict \<Rightarrow> int \<times> aln_record \<Rightarrow> aln_dict" where
  "store d r = AList.update (fst r) (snd r) d"

text \<open>
  A well-formed \<^verbatim>\<open>.aln\<close> input: no malformed line, and no section index twice.
\<close>

definition well_formed :: "builtins \<Rightarrow> string list \<Rightarrow> bool" where
  "well_formed b ls \<longleftrightarrow>
     (\<forall>l \<in> set ls. \<not> malformed b l) \<and> distinct (map fst (aln_records b ls))"

subsection \<open>The estimate in \<^verbatim>\<open>.aln\<close> mode\<close>

text \<open>The components of a record, and the record a dictionary holds for a key.\<close>

definition rot :: "aln_record \<Rightarrow> real" where "rot r = fst r"

definition tx :: "aln_record \<Rightarrow> real" where "tx r = fst (snd r)"

definition ty :: "aln_record \<Rightarrow> real" where "ty r = fst (snd (snd r))"

definition tilt :: "aln_record \<Rightarrow> real" where "tilt r = snd (snd (snd r))"

definition record_at :: "aln_dict \<Rightarrow> int \<Rightarrow> aln_record" where
  "record_at d k = the (map_of d k)"

text \<open>
  The common keys of two dictionaries, and those of them whose tilt in the first
  dictionary is within the cutoff.
\<close>

definition common :: "aln_dict \<Rightarrow> aln_dict \<Rightarrow> int set" where
  "common d1 d2 = fst ` set d1 \<inter> fst ` set d2"

definition selected :: "real \<Rightarrow> aln_dict \<Rightarrow> aln_dict \<Rightarrow> int set" where
  "selected cutoff d1 d2 = {k \<in> common d1 d2. \<bar>tilt (record_at d1 k)\<bar> \<le> cutoff}"

text \<open>
  The median of a family of values indexed by a finite set of keys, whatever the order
  in which the keys are visited: the middle of the sorted values, or the mean of the two
  middle values when their number is even.
\<close>

definition middle :: "real list \<Rightarrow> real" where
  "middle srt =
     (let n = length srt in
      if odd n then srt ! (n div 2) else (srt ! (n div 2 - 1) + srt ! (n div 2)) / 2)"

definition median_over :: "int set \<Rightarrow> (int \<Rightarrow> real) \<Rightarrow> real" where
  "median_over K f = middle (sorted_list_of_multiset (image_mset f (mset_set K)))"

text \<open>The difference, second minus first, of one component at a key.\<close>

definition delta :: "(aln_record \<Rightarrow> real) \<Rightarrow> aln_dict \<Rightarrow> aln_dict \<Rightarrow> int \<Rightarrow> real" where
  "delta axis d1 d2 k = axis (record_at d2 k) - axis (record_at d1 k)"

text \<open>A dictionary with the tilt of every record left out.\<close>

definition without_tilt :: "aln_dict \<Rightarrow> (int \<times> real \<times> real \<times> real) list" where
  "without_tilt d = map (\<lambda>(k, r). (k, rot r, tx r, ty r)) d"

subsection \<open>The estimate in \<^verbatim>\<open>.xf\<close> mode\<close>

text \<open>The components of an entry.\<close>

definition xf_rot :: "xf_entry \<Rightarrow> real" where "xf_rot e = fst e"

definition xf_dx :: "xf_entry \<Rightarrow> real" where "xf_dx e = fst (snd e)"

definition xf_dy :: "xf_entry \<Rightarrow> real" where "xf_dy e = snd (snd e)"

text \<open>
  The positional differences, second minus first, of one component: position \<open>i\<close> of the
  one sequence against position \<open>i\<close> of the other, over the first \<open>min N1 N2\<close> positions
  of each.
\<close>

definition positional :: "(xf_entry \<Rightarrow> real) \<Rightarrow> xf_entry list \<Rightarrow> xf_entry list \<Rightarrow> real list" where
  "positional axis e1 e2 =
     (let n = min (length e1) (length e2) in
      map2 (\<lambda>x y. axis y - axis x) (take n e1) (take n e2))"

text \<open>The warning printed when the two lengths differ, naming the number of positions used.\<close>

definition length_warning :: "xf_entry list \<Rightarrow> xf_entry list \<Rightarrow> message list" where
  "length_warning e1 e2 =
     (if length e1 \<noteq> length e2 then [Different_lengths (min (length e1) (length e2))] else [])"

subsection \<open>The transform\<close>

text \<open>
  The 3x4 matrix, row by row, that the specification gives for
  \<open>(dR, dX, dY, flip)\<close>.
\<close>

definition rigid_matrix :: "real \<Rightarrow> real \<Rightarrow> real \<Rightarrow> bool \<Rightarrow> real list list" where
  "rigid_matrix dR dX dY flip =
     (let c = cos (radians dR); s = sin (radians dR); zsign = (if flip then - 1 else 1) in
      [[c, - s, 0, dX],
       [s, c, 0, dY],
       [0, 0, zsign, 0]])"

text \<open>The column that the space flag of \<^verbatim>\<open> .6f\<close> fills when the value has no sign.\<close>

definition pad :: "real \<Rightarrow> string" where
  "pad x = (if x < 0 then [] else '' '')"

subsection \<open>Arguments\<close>

text \<open>An invocation with an \<^verbatim>\<open>.aln\<close> path for one tomogram and an \<^verbatim>\<open>.xf\<close> path for the other.\<close>

definition mixed :: "args \<Rightarrow> bool" where
  "mixed a \<longleftrightarrow>
     (aln1 a \<noteq> None \<and> xf2 a \<noteq> None \<and> xf1 a = None \<and> aln2 a = None) \<or>
     (xf1 a \<noteq> None \<and> aln2 a \<noteq> None \<and> aln1 a = None \<and> xf2 a = None)"

section \<open>Example inputs\<close>

text \<open>
  The values of \<^verbatim>\<open>int()\<close> and \<^verbatim>\<open>float()\<close> on the literals of the examples; on every
  other string of the examples both raise \<^verbatim>\<open>ValueError\<close>.
\<close>

definition lit_int :: "string \<Rightarrow> int option" where
  "lit_int = map_of [(''0'', 0), (''1'', 1), (''2'', 2), (''3'', 3), (''4'', 4)]"

definition lit_float :: "string \<Rightarrow> real option" where
  "lit_float = map_of [(''0'', 0), (''1'', 1), (''2'', 2), (''3'', 3), (''4'', 4),
     (''10'', 10), (''20'', 20), (''21'', 21), (''41'', 41), (''60'', 60)]"

definition lits :: builtins where
  "lits = \<lparr>py_int = lit_int, py_float = lit_float\<rparr>"

text \<open>An \<^verbatim>\<open>.xf\<close> file with a comment, a blank line, a short line and a full line.\<close>

definition xf_example :: string where
  "xf_example = ''# c\<newline>\<newline>1 0 0 1\<newline>1 0 0 1 10 20\<newline>''"

text \<open>An \<^verbatim>\<open>.xf\<close> file whose only line is a comment of 6 fields.\<close>

definition xf_comment :: string where
  "xf_comment = ''#1 0 0 1 10 20\<newline>''"

text \<open>An \<^verbatim>\<open>.xf\<close> file whose second line has a field that is not a number.\<close>

definition xf_bad :: string where
  "xf_bad = ''1 0 0 1 10 20\<newline>1 0 x 1 10 20\<newline>''"

text \<open>
  Two \<^verbatim>\<open>.aln\<close> files. Section 0 is in the first file only (at tilt 60), section 4
  in the second only; sections 1, 2 and 3 are in both, within 5 degrees in the first
  file, and section 1 is at tilt 60 in the second. The dictionaries they parse to.
\<close>

definition aln_one :: string where
  "aln_one = ''# AreTomo\<newline>0 0 0 0 60\<newline>1 0 0 0 0\<newline>2 1 10 20 3\<newline>3 1 1 1 4\<newline>''"

definition aln_two :: string where
  "aln_two = ''1 1 10 20 60\<newline>2 3 10 20 0\<newline>3 4 21 41 0\<newline>4 0 0 0 0\<newline>''"

definition dict_one :: aln_dict where
  "dict_one = [(0, (0, 0, 0, 60)), (1, (0, 0, 0, 0)), (2, (1, 10, 20, 3)), (3, (1, 1, 1, 4))]"

definition dict_two :: aln_dict where
  "dict_two = [(1, (1, 10, 20, 60)), (2, (3, 10, 20, 0)), (3, (4, 21, 41, 0)), (4, (0, 0, 0, 0))]"

text \<open>The same two files, their lines in another order.\<close>

definition aln_one_shuffled :: string where
  "aln_one_shuffled = ''3 1 1 1 4\<newline>0 0 0 0 60\<newline># AreTomo\<newline>2 1 10 20 3\<newline>1 0 0 0 0\<newline>''"

definition aln_two_shuffled :: string where
  "aln_two_shuffled = ''4 0 0 0 0\<newline>3 4 21 41 0\<newline>2 3 10 20 0\<newline>1 1 10 20 60\<newline>''"

text \<open>An \<^verbatim>\<open>.aln\<close> file whose third data line has 3 fields, with a full line after it.\<close>

definition aln_trailer :: string where
  "aln_trailer = ''# c\<newline>1 0 0 0 0\<newline>2 1 10 20 0\<newline>3 2 1\<newline>0 1 1 1 1\<newline>''"

text \<open>File systems with these files, and the arguments of a run in \<^verbatim>\<open>.aln\<close> mode.\<close>

definition fs_aln :: filesystem where
  "fs_aln = [''one.aln'' \<mapsto> aln_one, ''two.aln'' \<mapsto> aln_two]"

definition fs_shuffled :: filesystem where
  "fs_shuffled = [''one.aln'' \<mapsto> aln_one_shuffled, ''two.aln'' \<mapsto> aln_two_shuffled]"

definition args_aln :: args where
  "args_aln = \<lparr>aln1 = Some ''one.aln'', xf1 = None, aln2 = Some ''two.aln'', xf2 = None,
     out = ''out.xf'', tilt_cutoff = 5, flip_z = False\<rparr>"

text \<open>
  Two \<^verbatim>\<open>.xf\<close> files of 3 and of 2 lines: no rotation in the first, a rotation by 90
  degrees in the second.
\<close>

definition xf_first :: string where
  "xf_first = ''1 0 0 1 0 0\<newline>1 0 0 1 10 20\<newline>1 0 0 1 0 0\<newline>''"

definition xf_second :: string where
  "xf_second = ''0 0 1 0 10 20\<newline>0 0 1 0 10 20\<newline>''"

text \<open>An \<^verbatim>\<open>.aln\<close> file with section 4 only, and one with section 0 only, at tilt 60.\<close>

definition aln_four :: string where
  "aln_four = ''4 0 0 0 0\<newline>''"

definition aln_steep :: string where
  "aln_steep = ''0 0 0 0 60\<newline>''"

text \<open>
  The arguments of a run in \<^verbatim>\<open>.xf\<close> mode and of a run with mixed formats, and the
  file systems of the examples.
\<close>

definition args_xf :: args where
  "args_xf = \<lparr>aln1 = None, xf1 = Some ''first.xf'', aln2 = None, xf2 = Some ''second.xf'',
     out = ''out.xf'', tilt_cutoff = 5, flip_z = False\<rparr>"

definition args_mixed :: args where
  "args_mixed = \<lparr>aln1 = Some ''one.aln'', xf1 = None, aln2 = None, xf2 = Some ''second.xf'',
     out = ''out.xf'', tilt_cutoff = 5, flip_z = False\<rparr>"

definition fs_xf :: filesystem where
  "fs_xf = [''first.xf'' \<mapsto> xf_first, ''second.xf'' \<mapsto> xf_second]"

definition fs_disjoint :: filesystem where
  "fs_disjoint = [''one.aln'' \<mapsto> aln_one, ''two.aln'' \<mapsto> aln_four]"

definition fs_steep :: filesystem where
  "fs_steep = [''one.aln'' \<mapsto> aln_one, ''two.aln'' \<mapsto> aln_steep]"

definition fs_empty_xf :: filesystem where
  "fs_empty_xf = [''first.xf'' \<mapsto> xf_comment, ''second.xf'' \<mapsto> xf_second]"

definition fs_mixed :: filesystem where
  "fs_mixed = [''one.aln'' \<mapsto> aln_one, ''second.xf'' \<mapsto> xf_second]"

text \<open>The text of the transform for a rotation by 90 degrees and the shift \<open>(5, 10)\<close>.\<close>

definition transform_90 :: string where
  "transform_90 =
     '' 0.000000 -1.000000  0.000000  5.000000\<newline> 1.000000  0.000000  0.000000  10.000000\<newline>0.000000  0.000000  1.000000  0.000000\<newline>''"

section \<open>Auxiliary lemmas\<close>

subsection \<open>\<^verbatim>\<open>parse_xf\<close>, line by line\<close>

lemma split_ws_Nil: "split_ws [] = []"
  by (simp add: split_ws.simps)

lemma qualifyingI:
  "\<not> startswith_hash (strip l) \<Longrightarrow> 6 \<le> length (split_ws (strip l)) \<Longrightarrow> qualifying l"
  by (auto simp: qualifying_def split_ws_Nil)

lemma xf_line_skip: "\<not> qualifying l \<Longrightarrow> xf_line b l = Inr None"
  by (auto simp: qualifying_def xf_line_def Let_def)

lemma xf_fields_nth:
  "qualifying l \<Longrightarrow> i < 6 \<Longrightarrow> xf_fields b l ! i = py_float b (split_ws (strip l) ! i)"
  by (simp add: qualifying_def xf_fields_def)

lemma xf_fields_length: "qualifying l \<Longrightarrow> length (xf_fields b l) = 6"
  by (simp add: qualifying_def xf_fields_def)

lemma xf_line_entry:
  assumes "qualifying l" "None \<notin> set (xf_fields b l)"
  shows "xf_line b l = Inr (Some (xf_entry_of b l))"
proof -
  have n: "\<And>i. i < 6 \<Longrightarrow> py_float b (split_ws (strip l) ! i) \<noteq> None"
    using assms xf_fields_nth [OF assms(1)] xf_fields_length [OF assms(1), of b]
    by (metis nth_mem)
  have v: "\<And>i. i < 6 \<Longrightarrow> map the (xf_fields b l) ! i = the (py_float b (split_ws (strip l) ! i))"
    using xf_fields_nth [OF assms(1)] xf_fields_length [OF assms(1), of b] by simp
  from n [of 0] n [of 1] n [of 2] n [of 3] n [of 4] n [of 5] assms(1) show ?thesis
    by (auto simp: xf_line_def Let_def qualifying_def xf_entry_of_def v)
qed

lemma xf_line_error:
  assumes "qualifying l" "None \<in> set (xf_fields b l)"
  shows "xf_line b l = Inl ValueError"
proof -
  obtain i where i: "i < 6" "py_float b (split_ws (strip l) ! i) = None"
    using assms xf_fields_nth [OF assms(1)] xf_fields_length [OF assms(1), of b]
    by (metis in_set_conv_nth)
  then have "i = 0 \<or> i = 1 \<or> i = 2 \<or> i = 3 \<or> i = 4 \<or> i = 5" by arith
  with i(2) assms(1) show ?thesis
    by (auto simp: xf_line_def Let_def qualifying_def split: option.splits)
qed

lemma xf_loop_entries:
  assumes "\<forall>l \<in> set ls. qualifying l \<longrightarrow> None \<notin> set (xf_fields b l)"
  shows "xf_loop b ls acc = Inr (acc @ map (xf_entry_of b) (filter qualifying ls))"
  using assms
proof (induction ls arbitrary: acc)
  case Nil
  then show ?case by simp
next
  case (Cons l ls)
  show ?case
  proof (cases "qualifying l")
    case True
    then have "xf_line b l = Inr (Some (xf_entry_of b l))"
      using Cons.prems by (simp add: xf_line_entry)
    then show ?thesis using Cons True by simp
  next
    case False
    then show ?thesis using Cons by (simp add: xf_line_skip)
  qed
qed

lemma xf_loop_error:
  assumes "l \<in> set ls" "qualifying l" "None \<in> set (xf_fields b l)"
  shows "xf_loop b ls acc = Inl ValueError"
  using assms
proof (induction ls arbitrary: acc)
  case Nil
  then show ?case by simp
next
  case (Cons m ls)
  show ?case
  proof (cases "qualifying m")
    case False
    then show ?thesis using Cons by (auto simp: xf_line_skip)
  next
    case True
    show ?thesis
    proof (cases "None \<in> set (xf_fields b m)")
      case True
      with \<open>qualifying m\<close> show ?thesis by (simp add: xf_line_error)
    next
      case False
      with \<open>qualifying m\<close> have "xf_line b m = Inr (Some (xf_entry_of b m))"
        by (simp add: xf_line_entry)
      then show ?thesis using Cons False by auto
    qed
  qed
qed

subsection \<open>\<^verbatim>\<open>parse_aln\<close>, line by line\<close>

lemma aln_line_skip: "skipped l \<Longrightarrow> aln_line b l = Skip"
  by (auto simp: skipped_def aln_line_def)

lemma aln_line_stop: "malformed b l \<Longrightarrow> aln_line b l = Stop"
  by (auto simp: malformed_def skipped_def aln_line_def Let_def split: option.splits)

lemma aln_line_row:
  "\<not> skipped l \<Longrightarrow> \<not> malformed b l \<Longrightarrow> aln_line b l = Row (aln_record_of b l)"
  by (auto simp: malformed_def skipped_def aln_line_def aln_record_of_def Let_def
      split: option.splits)

lemma aln_line_stop_iff: "aln_line b l = Stop \<longleftrightarrow> malformed b l"
  using aln_line_skip [of l b] aln_line_stop [of b l] aln_line_row [of l b]
  by (cases "skipped l"; cases "malformed b l") auto

lemma aln_loop_records:
  assumes "\<forall>l \<in> set ls. \<not> malformed b l"
  shows "aln_loop b ls d = foldl store d (aln_records b ls)"
  using assms
proof (induction ls arbitrary: d)
  case Nil
  then show ?case by (simp add: aln_records_def)
next
  case (Cons l ls)
  show ?case
  proof (cases "skipped l")
    case True
    then show ?thesis using Cons by (simp add: aln_line_skip aln_records_def)
  next
    case False
    then have "aln_line b l = Row (aln_record_of b l)"
      using Cons.prems by (simp add: aln_line_row)
    then show ?thesis
      using Cons False by (simp add: aln_records_def store_def split: prod.splits)
  qed
qed

lemma aln_loop_stop:
  assumes "\<forall>l \<in> set pre. \<not> malformed b l" "malformed b bad"
  shows "aln_loop b (pre @ bad # rest) d = aln_loop b pre d"
  using assms
proof (induction pre arbitrary: d)
  case Nil
  then show ?case by (simp add: aln_line_stop)
next
  case (Cons l pre)
  then show ?case
    by (cases "aln_line b l") (auto simp: aln_line_stop_iff)
qed

lemma map_of_foldl_store:
  "map_of (foldl store d rs) = map_of (rev rs @ d)"
proof (induction rs arbitrary: d)
  case Nil
  then show ?case by simp
next
  case (Cons r rs)
  have "map_of (foldl store (store d r) rs) = map_of (rev rs @ store d r)"
    by (rule Cons.IH)
  also have "\<dots> = map_of (rev rs @ r # d)"
    by (cases r) (simp add: store_def update_conv' fun_eq_iff map_add_def split: option.splits)
  finally show ?case by simp
qed

lemma distinct_foldl_store:
  "distinct (map fst d) \<Longrightarrow> distinct (map fst (foldl store d rs))"
  by (induction rs arbitrary: d) (simp_all add: store_def distinct_update)

lemma keys_foldl_store:
  "fst ` set (foldl store d rs) = fst ` set d \<union> fst ` set rs"
  by (induction rs arbitrary: d) (auto simp: store_def dom_update)

lemma update_new_key: "k \<notin> fst ` set d \<Longrightarrow> AList.update k v d = d @ [(k, v)]"
  by (induction d) auto

lemma foldl_store_new_keys:
  assumes "distinct (map fst rs)" "fst ` set d \<inter> fst ` set rs = {}"
  shows "foldl store d rs = d @ rs"
  using assms
proof (induction rs arbitrary: d)
  case Nil
  then show ?case by simp
next
  case (Cons r rs)
  have s: "store d r = d @ [r]"
    using Cons.prems(2) by (cases r) (simp add: store_def update_new_key)
  have "foldl store (d @ [r]) rs = (d @ [r]) @ rs"
    using Cons.prems by (intro Cons.IH) auto
  then show ?case by (simp add: s)
qed

lemma aln_loop_well_formed: "well_formed b ls \<Longrightarrow> aln_loop b ls [] = aln_records b ls"
  by (simp add: well_formed_def aln_loop_records foldl_store_new_keys)

lemma mset_aln_records:
  "mset ls' = mset ls \<Longrightarrow> mset (aln_records b ls') = mset (aln_records b ls)"
  unfolding aln_records_def by (metis mset_filter mset_map)

lemma well_formed_perm:
  assumes "mset ls' = mset ls" "well_formed b ls"
  shows "well_formed b ls'"
proof -
  have "set ls' = set ls"
    using assms(1) by (rule mset_eq_setD)
  moreover have "mset (map fst (aln_records b ls')) = mset (map fst (aln_records b ls))"
    using mset_aln_records [OF assms(1), of b] by (metis mset_map)
  then have "distinct (map fst (aln_records b ls')) \<longleftrightarrow> distinct (map fst (aln_records b ls))"
    by (rule mset_eq_imp_distinct_iff)
  ultimately show ?thesis
    using assms(2) by (simp add: well_formed_def)
qed

lemma map_of_aln_loop_perm:
  assumes "mset ls' = mset ls" "well_formed b ls"
  shows "map_of (aln_loop b ls' []) = map_of (aln_loop b ls [])"
proof -
  have wf: "well_formed b ls'"
    using assms by (rule well_formed_perm)
  have "set (aln_records b ls') = set (aln_records b ls)"
    using mset_aln_records [OF assms(1), of b] by (rule mset_eq_setD)
  then have "map_of (aln_records b ls') = map_of (aln_records b ls)"
    using wf assms(2) by (simp add: well_formed_def map_of_inject_set)
  then show ?thesis
    using wf assms(2) by (simp add: aln_loop_well_formed)
qed

subsection \<open>The estimate in \<^verbatim>\<open>.aln\<close> mode\<close>

lemma sort_eq_Nil_iff: "sort xs = [] \<longleftrightarrow> xs = []"
  by (metis length_0_conv length_sort)

lemma median_middle: "xs \<noteq> [] \<Longrightarrow> median xs = Inr (middle (sort xs))"
  by (auto simp: median_def middle_def Let_def odd_iff_mod_2_eq_one sort_eq_Nil_iff)

lemma key_lookup: "k \<in> fst ` set d \<Longrightarrow> \<exists>r. map_of d k = Some r"
  by (cases "map_of d k") (auto simp: map_of_eq_None_iff)

lemma aln_deltas_lists:
  assumes "set secs \<subseteq> common d1 d2"
  shows "aln_deltas c d1 d2 secs (a1, a2, a3) =
     Inr (a1 @ map (delta rot d1 d2) (filter (\<lambda>k. \<bar>tilt (record_at d1 k)\<bar> \<le> c) secs),
          a2 @ map (delta tx d1 d2) (filter (\<lambda>k. \<bar>tilt (record_at d1 k)\<bar> \<le> c) secs),
          a3 @ map (delta ty d1 d2) (filter (\<lambda>k. \<bar>tilt (record_at d1 k)\<bar> \<le> c) secs))"
  using assms
proof (induction secs arbitrary: a1 a2 a3)
  case Nil
  then show ?case by simp
next
  case (Cons k secs)
  from Cons.prems obtain r1 r2 where r: "map_of d1 k = Some r1" "map_of d2 k = Some r2"
    using key_lookup [of k d1] key_lookup [of k d2] by (auto simp: common_def)
  obtain rot1 tx1 ty1 tilt1 where r1: "r1 = (rot1, tx1, ty1, tilt1)" by (cases r1) auto
  obtain rot2 tx2 ty2 tilt2 where r2: "r2 = (rot2, tx2, ty2, tilt2)" by (cases r2) auto
  from Cons.prems have sub: "set secs \<subseteq> common d1 d2" by simp
  show ?case
    using r r1 r2 Cons.IH [OF sub]
    by (simp add: delta_def record_at_def rot_def tx_def ty_def tilt_def)
qed

lemma sort_map_filter_keys:
  assumes "finite K"
  shows "sort (map f (filter P (sorted_list_of_set K))) =
     sorted_list_of_multiset (image_mset f (mset_set {k \<in> K. P k}))"
proof -
  have "mset (sorted_list_of_set K) = mset_set K"
    using mset_sorted_list_of_multiset [of "mset_set K"] by (simp del: mset_sorted_list_of_multiset)
  then have "mset (map f (filter P (sorted_list_of_set K))) =
      image_mset f (filter_mset P (mset_set K))"
    by simp
  also have "filter_mset P (mset_set K) = mset_set {k \<in> K. P k}"
    using assms by (simp add: filter_mset_mset_set)
  finally have "mset (map f (filter P (sorted_list_of_set K))) =
      image_mset f (mset_set {k \<in> K. P k})" .
  then show ?thesis
    by (metis sorted_list_of_multiset_mset)
qed

lemma finite_common: "finite (common d1 d2)"
  by (simp add: common_def)

lemma finite_selected: "finite (selected c d1 d2)"
  by (simp add: selected_def common_def)

lemma aln_mode_cases:
  "aln_mode c d1 d2 =
     (if common d1 d2 = {} then Inl (SysExit No_common_tilt_indices)
      else if selected c d1 d2 = {} then Inl (SysExit (No_entries_within c))
      else Inr (median_over (selected c d1 d2) (delta rot d1 d2),
                median_over (selected c d1 d2) (delta tx d1 d2),
                median_over (selected c d1 d2) (delta ty d1 d2)))"
proof -
  let ?K = "common d1 d2"
  let ?secs = "sorted_list_of_set ?K"
  let ?P = "\<lambda>k. \<bar>tilt (record_at d1 k)\<bar> \<le> c"
  let ?sel = "filter ?P ?secs"
  have K: "fst ` set d1 \<inter> fst ` set d2 = ?K"
    by (simp add: common_def)
  have secs: "set ?secs = ?K" "?secs = [] \<longleftrightarrow> ?K = {}"
    using finite_common [of d1 d2] by (simp_all add: sorted_list_of_set_eq_Nil_iff)
  have d: "aln_deltas c d1 d2 ?secs ([], [], []) =
      Inr (map (delta rot d1 d2) ?sel, map (delta tx d1 d2) ?sel, map (delta ty d1 d2) ?sel)"
    using aln_deltas_lists [of ?secs d1 d2 c "[]" "[]" "[]"] secs(1) by simp
  have sel: "set ?sel = selected c d1 d2"
    using secs(1) by (auto simp: selected_def)
  then have sel_Nil: "?sel = [] \<longleftrightarrow> selected c d1 d2 = {}"
    by (metis set_empty)
  have S: "{k \<in> ?K. ?P k} = selected c d1 d2"
    by (simp add: selected_def)
  have med: "median (map f ?sel) = Inr (median_over (selected c d1 d2) f)"
    if "selected c d1 d2 \<noteq> {}" for f
  proof -
    have "map f ?sel \<noteq> []" using that sel_Nil by simp
    then have "median (map f ?sel) = Inr (middle (sort (map f ?sel)))"
      by (rule median_middle)
    also have "sort (map f ?sel) = sorted_list_of_multiset (image_mset f (mset_set {k \<in> ?K. ?P k}))"
      using finite_common by (rule sort_map_filter_keys)
    finally show ?thesis by (simp add: S median_over_def)
  qed
  show ?thesis
  proof (cases "?K = {}")
    case True
    then show ?thesis using secs(2) by (simp add: aln_mode_def K)
  next
    case False
    show ?thesis
    proof (cases "selected c d1 d2 = {}")
      case True
      then show ?thesis
        using False secs(2) sel_Nil by (simp add: aln_mode_def K d)
    next
      case sel_ne: False
      then show ?thesis
        using False secs(2) sel_Nil by (simp add: aln_mode_def K d medians_def med)
    qed
  qed
qed

lemma keys_without_tilt: "fst ` set (without_tilt d) = fst ` set d"
  by (induction d) (auto simp: without_tilt_def)

lemma map_of_without_tilt:
  "map_of (without_tilt d) k = map_option (\<lambda>r. (rot r, tx r, ty r)) (map_of d k)"
  by (simp add: without_tilt_def map_of_map)

lemma without_tilt_axes:
  assumes "without_tilt d' = without_tilt d" "k \<in> fst ` set d"
  shows "rot (record_at d' k) = rot (record_at d k)"
    and "tx (record_at d' k) = tx (record_at d k)"
    and "ty (record_at d' k) = ty (record_at d k)"
proof -
  from key_lookup [OF assms(2)] obtain r where r: "map_of d k = Some r" ..
  have "fst ` set d' = fst ` set (without_tilt d')"
    by (simp only: keys_without_tilt)
  also have "\<dots> = fst ` set d"
    by (simp only: assms(1) keys_without_tilt)
  finally have "k \<in> fst ` set d'"
    using assms(2) by simp
  from key_lookup [OF this] obtain r' where r': "map_of d' k = Some r'" ..
  have "map_option (\<lambda>r. (rot r, tx r, ty r)) (map_of d' k) = map_of (without_tilt d') k"
    by (simp only: map_of_without_tilt)
  also have "\<dots> = map_option (\<lambda>r. (rot r, tx r, ty r)) (map_of d k)"
    by (simp only: assms(1) map_of_without_tilt)
  finally have "map_option (\<lambda>r. (rot r, tx r, ty r)) (map_of d' k) =
      map_option (\<lambda>r. (rot r, tx r, ty r)) (map_of d k)" .
  then have "(rot r', tx r', ty r') = (rot r, tx r, ty r)"
    using r r' by simp
  then show "rot (record_at d' k) = rot (record_at d k)"
    and "tx (record_at d' k) = tx (record_at d k)"
    and "ty (record_at d' k) = ty (record_at d k)"
    using r r' by (simp_all add: record_at_def)
qed

lemma median_over_cong:
  assumes "finite K" "\<And>k. k \<in> K \<Longrightarrow> f k = g k"
  shows "median_over K f = median_over K g"
proof -
  have "image_mset f (mset_set K) = image_mset g (mset_set K)"
    using assms by (intro image_mset_cong) simp
  then show ?thesis by (simp add: median_over_def)
qed

lemma aln_mode_without_tilt:
  assumes "without_tilt d2' = without_tilt d2"
  shows "aln_mode c d1 d2' = aln_mode c d1 d2"
proof -
  have "fst ` set d2' = fst ` set (without_tilt d2')"
    by (simp only: keys_without_tilt)
  also have "\<dots> = fst ` set d2"
    by (simp only: assms keys_without_tilt)
  finally have K: "common d1 d2' = common d1 d2"
    by (simp add: common_def)
  then have S: "selected c d1 d2' = selected c d1 d2"
    by (simp add: selected_def)
  have in2: "k \<in> fst ` set d2" if "k \<in> selected c d1 d2" for k
    using that by (simp add: selected_def common_def)
  have "median_over (selected c d1 d2) (delta rot d1 d2') =
      median_over (selected c d1 d2) (delta rot d1 d2)"
    by (rule median_over_cong [OF finite_selected])
      (simp add: delta_def without_tilt_axes(1) [OF assms in2])
  moreover have "median_over (selected c d1 d2) (delta tx d1 d2') =
      median_over (selected c d1 d2) (delta tx d1 d2)"
    by (rule median_over_cong [OF finite_selected])
      (simp add: delta_def without_tilt_axes(2) [OF assms in2])
  moreover have "median_over (selected c d1 d2) (delta ty d1 d2') =
      median_over (selected c d1 d2) (delta ty d1 d2)"
    by (rule median_over_cong [OF finite_selected])
      (simp add: delta_def without_tilt_axes(3) [OF assms in2])
  ultimately show ?thesis
    by (simp add: aln_mode_cases K S)
qed

lemma keys_map_of: "fst ` set d = dom (map_of d)"
  by (simp add: dom_map_of_conv_image_fst)

lemma aln_mode_map_of:
  assumes "map_of d1' = map_of d1" "map_of d2' = map_of d2"
  shows "aln_mode c d1' d2' = aln_mode c d1 d2"
proof -
  have K: "common d1' d2' = common d1 d2"
    using assms by (simp add: common_def keys_map_of)
  have R: "record_at d1' = record_at d1" "record_at d2' = record_at d2"
    using assms by (simp_all add: record_at_def fun_eq_iff)
  have S: "selected c d1' d2' = selected c d1 d2"
    by (simp add: selected_def K R)
  have D: "delta ax d1' d2' = delta ax d1 d2" for ax
    by (simp add: delta_def R fun_eq_iff)
  show ?thesis
    by (simp add: aln_mode_cases K S D)
qed

subsection \<open>The example inputs, evaluated\<close>

lemmas eval_line = strip_def is_space_def startswith_hash_def split_ws.simps
  lits_def lit_int_def lit_float_def

lemma file_lines_aln_one:
  "file_lines aln_one = [''# AreTomo\<newline>'', ''0 0 0 0 60\<newline>'', ''1 0 0 0 0\<newline>'',
     ''2 1 10 20 3\<newline>'', ''3 1 1 1 4\<newline>'']"
  by (simp add: aln_one_def file_lines_def)

lemma file_lines_aln_two:
  "file_lines aln_two = [''1 1 10 20 60\<newline>'', ''2 3 10 20 0\<newline>'', ''3 4 21 41 0\<newline>'',
     ''4 0 0 0 0\<newline>'']"
  by (simp add: aln_two_def file_lines_def)

lemma file_lines_aln_one_shuffled:
  "file_lines aln_one_shuffled = [''3 1 1 1 4\<newline>'', ''0 0 0 0 60\<newline>'', ''# AreTomo\<newline>'',
     ''2 1 10 20 3\<newline>'', ''1 0 0 0 0\<newline>'']"
  by (simp add: aln_one_shuffled_def file_lines_def)

lemma file_lines_aln_two_shuffled:
  "file_lines aln_two_shuffled = [''4 0 0 0 0\<newline>'', ''3 4 21 41 0\<newline>'', ''2 3 10 20 0\<newline>'',
     ''1 1 10 20 60\<newline>'']"
  by (simp add: aln_two_shuffled_def file_lines_def)

lemma file_lines_aln_trailer:
  "file_lines aln_trailer = [''# c\<newline>'', ''1 0 0 0 0\<newline>'', ''2 1 10 20 0\<newline>''] @
     ''3 2 1\<newline>'' # [''0 1 1 1 1\<newline>'']"
  by (simp add: aln_trailer_def file_lines_def)

lemma aln_loop_one: "aln_loop lits (file_lines aln_one) [] = dict_one"
  by (simp add: file_lines_aln_one aln_line_def eval_line dict_one_def)

lemma aln_loop_two: "aln_loop lits (file_lines aln_two) [] = dict_two"
  by (simp add: file_lines_aln_two aln_line_def eval_line dict_two_def)

lemma common_one_two: "common dict_one dict_two = {1, 2, 3}"
  by (auto simp: common_def dict_one_def dict_two_def)

lemma selected_one_two: "selected 5 dict_one dict_two = {1, 2, 3}"
  unfolding selected_def common_one_two by (auto simp: record_at_def tilt_def dict_one_def)

lemma open_fs_aln:
  "open_read fs_aln (aln1 args_aln) = Inr aln_one"
  "open_read fs_aln (aln2 args_aln) = Inr aln_two"
  "open_read fs_shuffled (aln1 args_aln) = Inr aln_one_shuffled"
  "open_read fs_shuffled (aln2 args_aln) = Inr aln_two_shuffled"
  by (simp_all add: open_read_def fs_aln_def fs_shuffled_def args_aln_def)

lemma parse_fs_aln:
  "parse_aln lits fs_aln (aln1 args_aln) = Inr dict_one"
  "parse_aln lits fs_aln (aln2 args_aln) = Inr dict_two"
  by (simp_all add: parse_aln_def open_fs_aln aln_loop_one aln_loop_two)

lemma truthy_args_aln: "truthy (aln1 args_aln)" "truthy (aln2 args_aln)" "tilt_cutoff args_aln = 5"
  by (simp_all add: truthy_def args_aln_def)

lemma medians_one_two:
  "median_over {1, 2, 3} (delta rot dict_one dict_two) = 2"
  "median_over {1, 2, 3} (delta tx dict_one dict_two) = 10"
  "median_over {1, 2, 3} (delta ty dict_one dict_two) = 20"
  by (simp_all add: median_over_def middle_def delta_def rot_def tx_def ty_def record_at_def
      dict_one_def dict_two_def)

lemma estimate_fs_aln: "estimate lits fs_aln args_aln = Inr ((2, 10, 20), [])"
  by (simp add: estimate_def truthy_args_aln parse_fs_aln aln_mode_cases common_one_two
      selected_one_two medians_one_two)

lemma well_formed_one: "well_formed lits (file_lines aln_one)"
  by (simp add: well_formed_def file_lines_aln_one malformed_def skipped_def aln_records_def
      aln_record_of_def eval_line)

lemma well_formed_two: "well_formed lits (file_lines aln_two)"
  by (simp add: well_formed_def file_lines_aln_two malformed_def skipped_def aln_records_def
      aln_record_of_def eval_line)

lemma shuffled_perm:
  "mset (file_lines aln_one_shuffled) = mset (file_lines aln_one)"
  "mset (file_lines aln_two_shuffled) = mset (file_lines aln_two)"
  by (simp_all add: file_lines_aln_one file_lines_aln_two file_lines_aln_one_shuffled
      file_lines_aln_two_shuffled)

subsection \<open>Fields of a line\<close>

lemma split_ws_step:
  assumes sp: "\<forall>c \<in> set sp. is_space c"
    and tok: "tok \<noteq> []" "\<forall>c \<in> set tok. \<not> is_space c"
    and rest: "rest = [] \<or> is_space (hd rest)"
  shows "split_ws (sp @ tok @ rest) = tok # split_ws rest"
proof -
  obtain c cs where c: "tok = c # cs"
    using tok(1) by (cases tok) auto
  have d: "dropWhile is_space (sp @ tok @ rest) = c # (cs @ rest)"
    using sp tok(2) c by (simp add: dropWhile_append3)
  have t: "takeWhile (\<lambda>x. \<not> is_space x) (c # (cs @ rest)) = c # cs"
  proof (cases rest)
    case Nil
    then show ?thesis using tok(2) c by simp
  next
    case (Cons r rs)
    then have "is_space r" using rest by simp
    then show ?thesis using tok(2) c Cons by (simp add: takeWhile_tail)
  qed
  have r: "dropWhile (\<lambda>x. \<not> is_space x) (c # (cs @ rest)) = rest"
  proof (cases rest)
    case Nil
    then show ?thesis using tok(2) c by simp
  next
    case (Cons r rs)
    then have "is_space r" using rest by simp
    then show ?thesis using tok(2) c Cons by (simp add: dropWhile_append2)
  qed
  have "split_ws (sp @ tok @ rest) =
      takeWhile (\<lambda>x. \<not> is_space x) (c # (cs @ rest))
        # split_ws (dropWhile (\<lambda>x. \<not> is_space x) (c # (cs @ rest)))"
    by (subst split_ws.simps) (simp only: d list.case)
  then show ?thesis
    by (simp only: t r c)
qed

lemma split_ws_spaces:
  assumes "\<forall>c \<in> set sp. is_space c"
  shows "split_ws sp = []"
proof -
  have "dropWhile is_space sp = []"
    using assms by simp
  then show ?thesis
    by (subst split_ws.simps) (simp only: list.case)
qed

lemma split_ws_fields:
  assumes "\<forall>(sp, tok) \<in> set ps. (\<forall>c \<in> set sp. is_space c) \<and> tok \<noteq> [] \<and> (\<forall>c \<in> set tok. \<not> is_space c)"
    and "\<forall>(sp, tok) \<in> set (tl ps). sp \<noteq> []"
    and "\<forall>c \<in> set trail. is_space c"
  shows "split_ws (concat (map (\<lambda>(sp, tok). sp @ tok) ps) @ trail) = map snd ps"
  using assms(1,2)
proof (induction ps)
  case Nil
  then show ?case using assms(3) by (simp add: split_ws_spaces)
next
  case (Cons p ps)
  obtain sp tok where p: "p = (sp, tok)" by (cases p)
  let ?rest = "concat (map (\<lambda>(sp, tok). sp @ tok) ps) @ trail"
  have rest: "?rest = [] \<or> is_space (hd ?rest)"
  proof (cases ps)
    case Nil
    then show ?thesis using assms(3) by (cases trail) auto
  next
    case (Cons q qs)
    obtain sq tq where q: "q = (sq, tq)" by (cases q)
    have "sq \<noteq> []" "\<forall>c \<in> set sq. is_space c"
      using Cons.prems Cons q by auto
    then show ?thesis using Cons q by (cases sq) auto
  qed
  have ih: "split_ws ?rest = map snd ps"
  proof (rule Cons.IH)
    show "\<forall>(sp, tok) \<in> set ps. (\<forall>c \<in> set sp. is_space c) \<and> tok \<noteq> [] \<and> (\<forall>c \<in> set tok. \<not> is_space c)"
      using Cons.prems(1) by simp
    show "\<forall>(sp, tok) \<in> set (tl ps). sp \<noteq> []"
      using Cons.prems(2) by (cases ps) auto
  qed
  have "split_ws (sp @ tok @ ?rest) = tok # split_ws ?rest"
    using Cons.prems(1) p rest by (intro split_ws_step) auto
  then show ?case by (simp add: p ih)
qed

lemma keep_lines_line:
  "CHR 0x0A \<notin> set l \<Longrightarrow> keep_lines (l @ CHR 0x0A # rest) = (l @ [CHR 0x0A]) # keep_lines rest"
  by (induction l) auto

subsection \<open>The format \<^verbatim>\<open>.6f\<close>\<close>

lemma dec_nat_small: "n < 10 \<Longrightarrow> dec_nat n = [digit_char n]"
  by (subst dec_nat.simps) simp

lemma dec_nat_big: "\<not> n < 10 \<Longrightarrow> dec_nat n = dec_nat (n div 10) @ [digit_char (n mod 10)]"
  by (subst dec_nat.simps) simp

lemma dec_fixed_numeral:
  "dec_fixed (numeral k) n = dec_fixed (pred_numeral k) (n div 10) @ [digit_char (n mod 10)]"
proof -
  have "numeral k = Suc (pred_numeral k)"
    by (rule numeral_eq_Suc)
  then show ?thesis
    by (simp only: dec_fixed.simps)
qed

lemma dec_fixed_1: "dec_fixed 1 n = [digit_char (n mod 10)]"
  by simp

lemma round_half_even_of_nat: "round_half_even (of_nat n) = n"
  by (simp add: round_half_even_def)

lemma round_half_even_numeral: "round_half_even (numeral k) = numeral k"
  using round_half_even_of_nat [of "numeral k"] by simp

lemma round_half_even_0: "round_half_even 0 = 0"
  using round_half_even_of_nat [of 0] by simp

lemma digits: "digit_char 0 = CHR ''0''" "digit_char 1 = CHR ''1''" "digit_char 2 = CHR ''2''"
  "digit_char 3 = CHR ''3''" "digit_char 4 = CHR ''4''" "digit_char 5 = CHR ''5''"
  "digit_char 6 = CHR ''6''" "digit_char 7 = CHR ''7''" "digit_char 8 = CHR ''8''"
  "digit_char 9 = CHR ''9''" "digit_char (Suc 0) = CHR ''1''"
  by (simp_all add: digit_char_def)

lemmas eval_fmt = fmt_6f_def fmt_space_6f_def digits_6f_def round_half_even_numeral
  round_half_even_0 dec_nat_small dec_nat_big dec_fixed_numeral dec_fixed_1 digits

lemma fmt_6f_zero: "fmt_6f 0 = ''0.000000''"
  by (simp add: eval_fmt)

lemma fmt_space_pad: "fmt_space_6f x = pad x @ fmt_6f x"
  by (simp add: fmt_space_6f_def fmt_6f_def pad_def)

lemma digit_char_digit: "d < 10 \<Longrightarrow> digit_char d \<in> set ''0123456789''"
  unfolding digit_char_def by (rule nth_mem) simp

lemma dec_fixed_chars: "set (dec_fixed w n) \<subseteq> set ''0123456789''"
proof (induction w arbitrary: n)
  case 0
  then show ?case by simp
next
  case (Suc w)
  have "digit_char (n mod 10) \<in> set ''0123456789''"
    by (rule digit_char_digit) simp
  then show ?case using Suc [of "n div 10"] by auto
qed

lemma length_dec_fixed: "length (dec_fixed w n) = w"
  by (induction w arbitrary: n) simp_all

lemma dec_nat_chars: "set (dec_nat n) \<subseteq> set ''0123456789''"
proof (induction n rule: dec_nat.induct)
  case (1 n)
  show ?case
  proof (cases "n < 10")
    case True
    then have "digit_char n \<in> set ''0123456789''"
      by (rule digit_char_digit)
    then show ?thesis using True by (subst dec_nat.simps) simp
  next
    case False
    have "digit_char (n mod 10) \<in> set ''0123456789''"
      by (rule digit_char_digit) simp
    then show ?thesis using False 1 by (subst dec_nat.simps) auto
  qed
qed

lemma dec_nat_not_Nil: "dec_nat n \<noteq> []"
  by (subst dec_nat.simps) simp

lemma digits_6f_chars: "set (digits_6f x) \<subseteq> set ''0123456789.''"
  using dec_nat_chars dec_fixed_chars by (fastforce simp: digits_6f_def Let_def)

lemma fmt_6f_chars: "set (fmt_6f x) \<subseteq> set ''-0123456789.''"
proof
  fix c assume "c \<in> set (fmt_6f x)"
  then have "c = CHR ''-'' \<or> c \<in> set (digits_6f x)"
    by (auto simp: fmt_6f_def split: if_splits)
  then have "c = CHR ''-'' \<or> c \<in> set ''0123456789.''"
    using digits_6f_chars [of x] by blast
  then show "c \<in> set ''-0123456789.''"
    by simp
qed

lemma fmt_6f_not_Nil: "fmt_6f x \<noteq> []"
  by (simp add: fmt_6f_def digits_6f_def Let_def dec_nat_not_Nil)

lemma fmt_6f_no_space: "\<forall>c \<in> set (fmt_6f x). \<not> is_space c"
proof
  fix c assume "c \<in> set (fmt_6f x)"
  then have "c \<in> set ''-0123456789.''"
    using fmt_6f_chars by blast
  then show "\<not> is_space c"
    by (auto simp: is_space_def)
qed

lemma fmt_6f_no_newline: "CHR 0x0A \<notin> set (fmt_6f x)"
  using fmt_6f_no_space [of x] by (auto simp: is_space_def)

lemma pad_spaces: "\<forall>c \<in> set (pad x). is_space c" "CHR 0x0A \<notin> set (pad x)"
  by (simp_all add: pad_def is_space_def)

lemma split_ws_row:
  "split_ws (fmt_space_6f p @ '' '' @ fmt_space_6f q @ ''  0.000000 '' @ fmt_space_6f r @ ''\<newline>'')
     = [fmt_6f p, fmt_6f q, fmt_6f 0, fmt_6f r]"
proof -
  let ?ps = "[(pad p, fmt_6f p), ('' '' @ pad q, fmt_6f q), (''  '', fmt_6f 0),
      ('' '' @ pad r, fmt_6f r)]"
  have "split_ws (concat (map (\<lambda>(sp, tok). sp @ tok) ?ps) @ ''\<newline>'') = map snd ?ps"
    by (rule split_ws_fields)
      (simp_all add: pad_spaces fmt_6f_not_Nil fmt_6f_no_space, simp_all add: is_space_def)
  then show ?thesis
    by (simp add: fmt_space_pad fmt_6f_zero)
qed

lemma split_ws_last_row:
  "split_ws (''0.000000  0.000000 '' @ fmt_space_6f z @ ''  0.000000\<newline>'')
     = [fmt_6f 0, fmt_6f 0, fmt_6f z, fmt_6f 0]"
proof -
  let ?ps = "[([], fmt_6f 0), (''  '', fmt_6f 0), ('' '' @ pad z, fmt_6f z), (''  '', fmt_6f 0)]"
  have "split_ws (concat (map (\<lambda>(sp, tok). sp @ tok) ?ps) @ ''\<newline>'') = map snd ?ps"
    by (rule split_ws_fields)
      (simp_all add: pad_spaces fmt_6f_not_Nil fmt_6f_no_space, simp_all add: is_space_def)
  then show ?thesis
    by (simp add: fmt_space_pad fmt_6f_zero)
qed

lemma fmt_space_no_newline: "CHR 0x0A \<notin> set (fmt_space_6f x)"
  by (simp add: fmt_space_pad pad_spaces fmt_6f_no_newline)

lemma keep_lines_build_transform:
  "keep_lines (build_transform dR dX dY flip) =
     (let c = cos (radians dR); s = sin (radians dR); zsign = (if flip then - 1 else 1) in
      [fmt_space_6f c @ '' '' @ fmt_space_6f (- s) @ ''  0.000000 '' @ fmt_space_6f dX @ ''\<newline>'',
       fmt_space_6f s @ '' '' @ fmt_space_6f c @ ''  0.000000 '' @ fmt_space_6f dY @ ''\<newline>'',
       ''0.000000  0.000000 '' @ fmt_space_6f zsign @ ''  0.000000\<newline>''])"
proof -
  define c where "c = cos (radians dR)"
  define s where "s = sin (radians dR)"
  define z :: real where "z = (if flip then - 1 else 1)"
  let ?l1 = "fmt_space_6f c @ '' '' @ fmt_space_6f (- s) @ ''  0.000000 '' @ fmt_space_6f dX"
  let ?l2 = "fmt_space_6f s @ '' '' @ fmt_space_6f c @ ''  0.000000 '' @ fmt_space_6f dY"
  let ?l3 = "''0.000000  0.000000 '' @ fmt_space_6f z @ ''  0.000000''"
  have n: "CHR 0x0A \<notin> set ?l1" "CHR 0x0A \<notin> set ?l2" "CHR 0x0A \<notin> set ?l3"
    by (simp_all add: fmt_space_no_newline)
  have b: "build_transform dR dX dY flip = ?l1 @ CHR 0x0A # ?l2 @ CHR 0x0A # ?l3 @ CHR 0x0A # []"
    by (simp add: build_transform_def c_def s_def z_def Let_def)
  have k: "keep_lines (build_transform dR dX dY flip) =
      [?l1 @ [CHR 0x0A], ?l2 @ [CHR 0x0A], ?l3 @ [CHR 0x0A]]"
    by (simp only: b keep_lines_line [OF n(1)] keep_lines_line [OF n(2)] keep_lines_line [OF n(3)]
        keep_lines.simps(1))
  show ?thesis
    by (simp add: k c_def s_def z_def Let_def)
qed

subsection \<open>The estimate in \<^verbatim>\<open>.xf\<close> mode, and the end of a run\<close>

lemma positional_range:
  "map (\<lambda>i. axis (e2 ! i) - axis (e1 ! i)) [0..<min (length e1) (length e2)] = positional axis e1 e2"
  by (rule nth_equalityI) (simp_all add: positional_def Let_def)

lemma positional_not_Nil: "e1 \<noteq> [] \<Longrightarrow> e2 \<noteq> [] \<Longrightarrow> positional axis e1 e2 \<noteq> []"
  by (cases e1; cases e2) (simp_all add: positional_def Let_def)

lemma xf_mode_positional:
  assumes "e1 \<noteq> []" "e2 \<noteq> []"
  shows "xf_mode e1 e2 =
     Inr ((middle (sort (positional xf_rot e1 e2)),
           middle (sort (positional xf_dx e1 e2)),
           middle (sort (positional xf_dy e1 e2))), length_warning e1 e2)"
proof -
  have r: "map (\<lambda>i. fst (e2 ! i) - fst (e1 ! i)) [0..<min (length e1) (length e2)] =
      positional xf_rot e1 e2"
    using positional_range [of xf_rot e2 e1] by (simp add: xf_rot_def)
  have x: "map (\<lambda>i. fst (snd (e2 ! i)) - fst (snd (e1 ! i))) [0..<min (length e1) (length e2)] =
      positional xf_dx e1 e2"
    using positional_range [of xf_dx e2 e1] by (simp add: xf_dx_def)
  have y: "map (\<lambda>i. snd (snd (e2 ! i)) - snd (snd (e1 ! i))) [0..<min (length e1) (length e2)] =
      positional xf_dy e1 e2"
    using positional_range [of xf_dy e2 e1] by (simp add: xf_dy_def)
  have m: "median (positional axis e1 e2) = Inr (middle (sort (positional axis e1 e2)))" for axis
    using assms by (intro median_middle positional_not_Nil)
  show ?thesis
    using assms
    by (simp add: xf_mode_def Let_def r x y medians_def m length_warning_def del: upt.simps)
qed

lemma main_abort: "estimate b fs a = Inl e \<Longrightarrow> main b fs a = (Some e, fs, [])"
  by (simp add: main_def)

lemma main_aborts_unchanged:
  "fst (main b fs a) \<noteq> None \<Longrightarrow> fst (snd (main b fs a)) = fs"
  by (cases "estimate b fs a") (auto simp: main_def split: prod.splits)

lemma exit_status_abort: "x \<noteq> None \<Longrightarrow> exit_status x \<noteq> 0"
  by (cases x rule: exit_status.cases) simp_all

subsection \<open>More example inputs, evaluated\<close>

lemma radians_90: "radians 90 = pi / 2"
  by (simp add: radians_def)

lemma degrees_atan2: "degrees (atan2 0 1) = 0" "degrees (atan2 1 0) = 90"
  by (simp_all add: degrees_def atan2_def)

lemma build_transform_90_flip:
  "build_transform 90 5 (- 3) True =
     '' 0.000000 -1.000000  0.000000  5.000000\<newline> 1.000000  0.000000  0.000000 -3.000000\<newline>0.000000  0.000000 -1.000000  0.000000\<newline>''"
  by (simp add: build_transform_def radians_90 eval_fmt)

lemma build_transform_90: "build_transform 90 5 10 False = transform_90"
  by (simp add: build_transform_def radians_90 eval_fmt transform_90_def)

lemma xf_line_identity:
  "xf_line lits ''1 0 0 1 0 0\<newline>'' = Inr (Some (0, 0, 0))"
  "xf_line lits ''1 0 0 1 10 20\<newline>'' = Inr (Some (0, 10, 20))"
  "xf_line lits ''0 0 1 0 10 20\<newline>'' = Inr (Some (90, 10, 20))"
  by (simp_all add: xf_line_def eval_line degrees_atan2)

lemma parse_fs_xf:
  "parse_xf lits fs_xf (xf1 args_xf) = Inr [(0, 0, 0), (0, 10, 20), (0, 0, 0)]"
  "parse_xf lits fs_xf (xf2 args_xf) = Inr [(90, 10, 20), (90, 10, 20)]"
  by (simp_all add: parse_xf_def open_read_def fs_xf_def args_xf_def xf_first_def xf_second_def
      file_lines_def xf_line_identity)

lemma not_aln_args_xf: "\<not> (truthy (aln1 args_xf) \<and> truthy (aln2 args_xf))"
  by (simp add: truthy_def args_xf_def)

lemma positional_fs_xf:
  "middle (sort (positional xf_rot [(0, 0, 0), (0, 10, 20), (0, 0, 0)] [(90, 10, 20), (90, 10, 20)])) = 90"
  "middle (sort (positional xf_dx [(0, 0, 0), (0, 10, 20), (0, 0, 0)] [(90, 10, 20), (90, 10, 20)])) = 5"
  "middle (sort (positional xf_dy [(0, 0, 0), (0, 10, 20), (0, 0, 0)] [(90, 10, 20), (90, 10, 20)])) = 10"
  by (simp_all add: positional_def middle_def xf_rot_def xf_dx_def xf_dy_def)

lemma parse_fs_disjoint:
  "parse_aln lits fs_disjoint (aln1 args_aln) = Inr dict_one"
  "parse_aln lits fs_disjoint (aln2 args_aln) = Inr [(4, (0, 0, 0, 0))]"
  using aln_loop_one
  by (simp_all add: parse_aln_def open_read_def fs_disjoint_def args_aln_def aln_four_def
      file_lines_def aln_line_def eval_line)

lemma parse_fs_steep:
  "parse_aln lits fs_steep (aln1 args_aln) = Inr dict_one"
  "parse_aln lits fs_steep (aln2 args_aln) = Inr [(0, (0, 0, 0, 60))]"
  using aln_loop_one
  by (simp_all add: parse_aln_def open_read_def fs_steep_def args_aln_def aln_steep_def
      file_lines_def aln_line_def eval_line)

lemma parse_fs_empty_xf:
  "parse_xf lits fs_empty_xf (xf1 args_xf) = Inr []"
  "parse_xf lits fs_empty_xf (xf2 args_xf) = Inr [(90, 10, 20), (90, 10, 20)]"
  by (simp_all add: parse_xf_def open_read_def fs_empty_xf_def args_xf_def xf_comment_def
      xf_second_def file_lines_def xf_line_identity)
    (simp add: xf_line_def eval_line)

lemma common_disjoint: "common dict_one [(4, (0, 0, 0, 0))] = {}"
  by (simp add: common_def dict_one_def)

lemma common_steep: "common dict_one [(0, (0, 0, 0, 60))] \<noteq> {}"
  by (simp add: common_def dict_one_def)

lemma selected_steep: "selected 5 dict_one [(0, (0, 0, 0, 60))] = {}"
  by (auto simp: selected_def common_def dict_one_def record_at_def tilt_def)

section \<open>The claims\<close>

subsection \<open>C1: the estimate in \<^verbatim>\<open>.aln\<close> mode\<close>

text \<open>
  C1. In \<^verbatim>\<open>.aln\<close> mode, for two parsed dictionaries with at least one common key
  whose tilt in the first dictionary is within the cutoff, the estimate
  \<open>(dR, dX, dY)\<close> is the per-axis median of \<open>(rot2 - rot1, tx2 - tx1, ty2 - ty1)\<close> over
  exactly the common keys whose tilt in the first dictionary is within the cutoff; the
  tilt stored in the second dictionary has no influence: a second dictionary that
  differs in its tilts only gives the same result.
\<close>

theorem aln_estimate_is_median:
  assumes "truthy (aln1 a)" and "truthy (aln2 a)"
    and "parse_aln b fs (aln1 a) = Inr d1"
    and "parse_aln b fs (aln2 a) = Inr d2"
    and "selected (tilt_cutoff a) d1 d2 \<noteq> {}"
  shows "estimate b fs a =
      Inr ((median_over (selected (tilt_cutoff a) d1 d2) (delta rot d1 d2),
            median_over (selected (tilt_cutoff a) d1 d2) (delta tx d1 d2),
            median_over (selected (tilt_cutoff a) d1 d2) (delta ty d1 d2)), [])
    \<and> (\<forall>d2'. without_tilt d2' = without_tilt d2 \<longrightarrow>
          aln_mode (tilt_cutoff a) d1 d2' = aln_mode (tilt_cutoff a) d1 d2)"
proof -
  have "common d1 d2 \<noteq> {}"
    using assms(5) by (auto simp: selected_def)
  then have "estimate b fs a =
      Inr ((median_over (selected (tilt_cutoff a) d1 d2) (delta rot d1 d2),
            median_over (selected (tilt_cutoff a) d1 d2) (delta tx d1 d2),
            median_over (selected (tilt_cutoff a) d1 d2) (delta ty d1 d2)), [])"
    using assms by (simp add: estimate_def aln_mode_cases)
  moreover have "\<forall>d2'. without_tilt d2' = without_tilt d2 \<longrightarrow>
      aln_mode (tilt_cutoff a) d1 d2' = aln_mode (tilt_cutoff a) d1 d2"
    by (intro allI impI) (rule aln_mode_without_tilt)
  ultimately show ?thesis
    by (rule conjI)
qed

theorem aln_estimate_is_median_witness:
  "selected 5 dict_one dict_two = {1, 2, 3}
   \<and> estimate lits fs_aln args_aln = Inr ((2, 10, 20), [])"
  using aln_estimate_is_median [OF truthy_args_aln(1,2) parse_fs_aln]
  by (simp add: truthy_args_aln(3) selected_one_two medians_one_two)

subsection \<open>C2: the estimate in \<^verbatim>\<open>.xf\<close> mode\<close>

text \<open>
  C2. In \<^verbatim>\<open>.xf\<close> mode, for two non-empty parsed sequences of lengths \<open>N1\<close> and \<open>N2\<close>,
  the estimate uses only the positions below \<open>min N1 N2\<close> of each: \<open>(dR, dX, dY)\<close> is
  the per-axis median of the positional differences
  \<open>(rot2[i] - rot1[i], dx2[i] - dx1[i], dy2[i] - dy1[i])\<close>, the median of an even number
  of values being the mean of the two middle ones. Lengths that differ give a warning
  and no error: the run ends normally, writes the transform and prints the warning before
  its two closing lines.
\<close>

theorem xf_estimate_is_positional_median:
  assumes "\<not> (truthy (aln1 a) \<and> truthy (aln2 a))"
    and "parse_xf b fs (xf1 a) = Inr e1" and "parse_xf b fs (xf2 a) = Inr e2"
    and "e1 \<noteq> []" and "e2 \<noteq> []"
    and "dR = middle (sort (positional xf_rot e1 e2))"
    and "dX = middle (sort (positional xf_dx e1 e2))"
    and "dY = middle (sort (positional xf_dy e1 e2))"
  shows "estimate b fs a = Inr ((dR, dX, dY), length_warning e1 e2)
    \<and> main b fs a =
        (None, fs(out a \<mapsto> build_transform dR dX dY (flip_z a)),
         length_warning e1 e2 @ [Wrote_transform (out a), Summary dR dX dY (flip_z a)])
    \<and> (\<forall>xs. xs \<noteq> [] \<and> even (length xs) \<longrightarrow>
          median xs = Inr ((sort xs ! (length xs div 2 - 1) + sort xs ! (length xs div 2)) / 2))"
proof -
  have c: "(truthy (aln1 a) \<and> truthy (aln2 a)) = False"
    using assms(1) by simp
  have e: "estimate b fs a = Inr ((dR, dX, dY), length_warning e1 e2)"
    using assms(2-8) by (simp add: estimate_def c xf_mode_positional)
  then have "main b fs a =
        (None, fs(out a \<mapsto> build_transform dR dX dY (flip_z a)),
         length_warning e1 e2 @ [Wrote_transform (out a), Summary dR dX dY (flip_z a)])"
    by (simp add: main_def)
  moreover have "median xs = Inr ((sort xs ! (length xs div 2 - 1) + sort xs ! (length xs div 2)) / 2)"
    if "xs \<noteq> [] \<and> even (length xs)" for xs
    using that by (simp add: median_middle middle_def Let_def)
  ultimately show ?thesis
    using e by blast
qed

theorem xf_estimate_is_positional_median_witness:
  "estimate lits fs_xf args_xf = Inr ((90, 5, 10), [Different_lengths 2])
   \<and> main lits fs_xf args_xf =
       (None, fs_xf(''out.xf'' \<mapsto> transform_90),
        [Different_lengths 2, Wrote_transform ''out.xf'', Summary 90 5 10 False])"
proof -
  have a: "out args_xf = ''out.xf''" "flip_z args_xf = False"
    by (simp_all add: args_xf_def)
  show ?thesis
    using xf_estimate_is_positional_median [OF not_aln_args_xf parse_fs_xf _ _
        positional_fs_xf [symmetric]]
    by (simp add: length_warning_def a build_transform_90)
qed

subsection \<open>C3: the order of the lines of an \<^verbatim>\<open>.aln\<close> file\<close>

text \<open>
  C3. For two well-formed \<^verbatim>\<open>.aln\<close> inputs (no malformed line, no section index
  twice) that share a section whose tilt in the first file is within the cutoff,
  permuting the lines of either file leaves the estimate \<open>(dR, dX, dY)\<close> unchanged.
\<close>

theorem aln_estimate_line_order:
  assumes "truthy (aln1 a)" and "truthy (aln2 a)"
    and "open_read fs (aln1 a) = Inr t1" and "open_read fs (aln2 a) = Inr t2"
    and "open_read fs' (aln1 a) = Inr t1'" and "open_read fs' (aln2 a) = Inr t2'"
    and "well_formed b (file_lines t1)" and "well_formed b (file_lines t2)"
    and "mset (file_lines t1') = mset (file_lines t1)"
    and "mset (file_lines t2') = mset (file_lines t2)"
    and "selected (tilt_cutoff a) (aln_loop b (file_lines t1) []) (aln_loop b (file_lines t2) []) \<noteq> {}"
  shows "\<exists>est. estimate b fs a = Inr (est, []) \<and> estimate b fs' a = Inr (est, [])"
proof -
  let ?d1 = "aln_loop b (file_lines t1) []" and ?d2 = "aln_loop b (file_lines t2) []"
  let ?d1' = "aln_loop b (file_lines t1') []" and ?d2' = "aln_loop b (file_lines t2') []"
  have "common ?d1 ?d2 \<noteq> {}"
    using assms(11) by (auto simp: selected_def)
  then obtain est where est: "aln_mode (tilt_cutoff a) ?d1 ?d2 = Inr est"
    using assms(11) by (simp add: aln_mode_cases)
  have "aln_mode (tilt_cutoff a) ?d1' ?d2' = aln_mode (tilt_cutoff a) ?d1 ?d2"
    using assms(7-10) by (intro aln_mode_map_of map_of_aln_loop_perm)
  then have "estimate b fs a = Inr (est, [])" "estimate b fs' a = Inr (est, [])"
    using assms(1-6) est by (simp_all add: estimate_def parse_aln_def)
  then show ?thesis by blast
qed

theorem aln_estimate_line_order_witness:
  "estimate lits fs_aln args_aln = Inr ((2, 10, 20), [])
   \<and> estimate lits fs_shuffled args_aln = Inr ((2, 10, 20), [])"
proof -
  have s: "selected (tilt_cutoff args_aln) (aln_loop lits (file_lines aln_one) [])
      (aln_loop lits (file_lines aln_two) []) \<noteq> {}"
    by (simp add: truthy_args_aln(3) aln_loop_one aln_loop_two selected_one_two)
  show ?thesis
    using aln_estimate_line_order [OF truthy_args_aln(1,2) open_fs_aln well_formed_one
        well_formed_two shuffled_perm s]
    by (auto simp: estimate_fs_aln)
qed

subsection \<open>C4: \<^verbatim>\<open>parse_aln\<close> stops at the first malformed line\<close>

text \<open>
  C4. \<^verbatim>\<open>parse_aln\<close> stops at the first malformed line (not blank, not a comment,
  and with fewer than 5 fields, or a field 0 that is not an integer, or a field 1 to 4
  that is not a float): the dictionary returned is the one built from the records of
  the lines before it, a later record replacing an earlier one of the same section;
  nothing of the malformed line or of a line after it is in (the result does not depend
  on them). When no section index comes twice, the dictionary is the list of those
  records.
\<close>

theorem parse_aln_stops_at_malformed:
  assumes "open_read fs path = Inr txt"
    and "file_lines txt = pre @ bad # rest"
    and "\<forall>l \<in> set pre. \<not> malformed b l"
    and "malformed b bad"
  shows "\<exists>d. parse_aln b fs path = Inr d \<and> d = foldl store [] (aln_records b pre)
           \<and> map_of d = map_of (rev (aln_records b pre))
           \<and> fst ` set d = fst ` set (aln_records b pre)
           \<and> (distinct (map fst (aln_records b pre)) \<longrightarrow> d = aln_records b pre)"
proof -
  have "aln_loop b (file_lines txt) [] = aln_loop b pre []"
    using assms(2-4) by (simp add: aln_loop_stop)
  also have "\<dots> = foldl store [] (aln_records b pre)"
    using assms(3) by (rule aln_loop_records)
  finally have "parse_aln b fs path = Inr (foldl store [] (aln_records b pre))"
    using assms(1) by (simp add: parse_aln_def)
  then show ?thesis
    by (simp add: map_of_foldl_store keys_foldl_store foldl_store_new_keys)
qed

theorem parse_aln_stops_at_malformed_witness:
  "parse_aln lits [''a.aln'' \<mapsto> aln_trailer] (Some ''a.aln'') =
     Inr [(1, (0, 0, 0, 0)), (2, (1, 10, 20, 0))]"
proof -
  have o: "open_read [''a.aln'' \<mapsto> aln_trailer] (Some ''a.aln'') = Inr aln_trailer"
    by (simp add: open_read_def)
  have p: "\<forall>l \<in> set [''# c\<newline>'', ''1 0 0 0 0\<newline>'', ''2 1 10 20 0\<newline>'']. \<not> malformed lits l"
    by (simp add: malformed_def skipped_def eval_line)
  have m: "malformed lits ''3 2 1\<newline>''"
    by (simp add: malformed_def skipped_def eval_line)
  have r: "aln_records lits [''# c\<newline>'', ''1 0 0 0 0\<newline>'', ''2 1 10 20 0\<newline>''] =
      [(1, (0, 0, 0, 0)), (2, (1, 10, 20, 0))]"
    by (simp add: aln_records_def aln_record_of_def skipped_def eval_line)
  show ?thesis
    using parse_aln_stops_at_malformed [OF o file_lines_aln_trailer p m]
    by (auto simp: r store_def)
qed

subsection \<open>C5: what \<^verbatim>\<open>parse_xf\<close> skips and what it appends\<close>

text \<open>
  C5. \<^verbatim>\<open>parse_xf\<close> skips blank lines, comment lines and lines with fewer than 6
  fields, and goes on with the lines after them; for each qualifying line it appends
  \<open>(degrees (atan2 a21 a11), dx, dy)\<close>. So, when the first 6 fields of every qualifying
  line convert, the result is the list of the entries of the qualifying lines, in file
  order. In particular the line \<^verbatim>\<open>1 0 0 1 10 20\<close> yields the entry \<open>(0, 10, 20)\<close>.
\<close>

theorem parse_xf_skips_and_appends:
  "(open_read fs path = Inr txt \<and>
    (\<forall>l \<in> set (file_lines txt). qualifying l \<longrightarrow> None \<notin> set (xf_fields b l))
    \<longrightarrow> parse_xf b fs path = Inr (map (xf_entry_of b) (filter qualifying (file_lines txt))))
   \<and> (py_float b ''0'' = Some 0 \<and> py_float b ''1'' = Some 1 \<and>
        py_float b ''10'' = Some 10 \<and> py_float b ''20'' = Some 20
    \<longrightarrow> xf_line b ''1 0 0 1 10 20'' = Inr (Some (0, 10, 20)))"
proof (intro conjI impI)
  assume h: "open_read fs path = Inr txt \<and>
    (\<forall>l \<in> set (file_lines txt). qualifying l \<longrightarrow> None \<notin> set (xf_fields b l))"
  then have "xf_loop b (file_lines txt) [] =
      Inr ([] @ map (xf_entry_of b) (filter qualifying (file_lines txt)))"
    by (intro xf_loop_entries) simp
  with h show "parse_xf b fs path = Inr (map (xf_entry_of b) (filter qualifying (file_lines txt)))"
    by (simp add: parse_xf_def)
next
  assume "py_float b ''0'' = Some 0 \<and> py_float b ''1'' = Some 1 \<and>
        py_float b ''10'' = Some 10 \<and> py_float b ''20'' = Some 20"
  then show "xf_line b ''1 0 0 1 10 20'' = Inr (Some (0, 10, 20))"
    by (simp add: xf_line_def strip_def is_space_def startswith_hash_def split_ws.simps
        atan2_def degrees_def)
qed

text \<open>
  The example file: the comment, the blank line and the line of 4 fields are skipped,
  and the line after them is parsed.
\<close>

lemma file_lines_xf_example:
  "file_lines xf_example =
     [''# c\<newline>'', ''\<newline>'', ''1 0 0 1\<newline>'', ''1 0 0 1 10 20\<newline>'']"
  by (simp add: xf_example_def file_lines_def)

theorem parse_xf_skips_and_appends_witness:
  "parse_xf lits [''a.xf'' \<mapsto> xf_example] (Some ''a.xf'') = Inr [(0, 10, 20)]
   \<and> xf_line lits ''1 0 0 1 10 20'' = Inr (Some (0, 10, 20))"
proof -
  have q: "filter qualifying (file_lines xf_example) = [''1 0 0 1 10 20\<newline>'']"
    by (simp add: file_lines_xf_example qualifying_def strip_def is_space_def
        startswith_hash_def split_ws.simps)
  have f: "xf_fields lits (''1 0 0 1 10 20\<newline>'') =
      [Some 1, Some 0, Some 0, Some 1, Some 10, Some 20]"
    by (simp add: xf_fields_def strip_def is_space_def split_ws.simps lits_def lit_float_def)
  have h: "\<forall>l \<in> set (file_lines xf_example). qualifying l \<longrightarrow> None \<notin> set (xf_fields lits l)"
  proof (intro ballI impI)
    fix l assume "l \<in> set (file_lines xf_example)" "qualifying l"
    then have "l \<in> set (filter qualifying (file_lines xf_example))" by simp
    then show "None \<notin> set (xf_fields lits l)" by (simp add: q f)
  qed
  have e: "xf_entry_of lits (''1 0 0 1 10 20\<newline>'') = (0, 10, 20)"
    by (simp add: xf_entry_of_def f atan2_def degrees_def)
  have o: "open_read [''a.xf'' \<mapsto> xf_example] (Some ''a.xf'') = Inr xf_example"
    by (simp add: open_read_def)
  have p: "py_float lits ''0'' = Some 0" "py_float lits ''1'' = Some 1"
    "py_float lits ''10'' = Some 10" "py_float lits ''20'' = Some 20"
    by (simp_all add: lits_def lit_float_def)
  show ?thesis
    using parse_xf_skips_and_appends [of "[''a.xf'' \<mapsto> xf_example]" "Some ''a.xf''" xf_example lits]
      o h
    by (simp add: q e p)
qed

subsection \<open>C6: the fatal conditions\<close>

text \<open>
  C6. On each fatal condition the run ends with \<^verbatim>\<open>sys.exit\<close> and a message (exit
  status 1), and the file system is as before, so no output file is written:
  no common section index in the two \<^verbatim>\<open>.aln\<close> files; common indices but none whose
  tilt in the first file is within the cutoff (the message carries the cutoff); an
  \<^verbatim>\<open>.xf\<close> input with no parsed entry. More generally a run that does not end
  normally has a non-zero exit status and leaves the file system unchanged: the output is
  written only after the estimate has been computed.
\<close>

theorem fatal_conditions:
  "(truthy (aln1 a) \<and> truthy (aln2 a) \<and> parse_aln b fs (aln1 a) = Inr d1 \<and>
      parse_aln b fs (aln2 a) = Inr d2 \<and> common d1 d2 = {}
    \<longrightarrow> main b fs a = (Some (SysExit No_common_tilt_indices), fs, []))
   \<and> (truthy (aln1 a) \<and> truthy (aln2 a) \<and> parse_aln b fs (aln1 a) = Inr d1 \<and>
      parse_aln b fs (aln2 a) = Inr d2 \<and> common d1 d2 \<noteq> {} \<and>
      selected (tilt_cutoff a) d1 d2 = {}
    \<longrightarrow> main b fs a = (Some (SysExit (No_entries_within (tilt_cutoff a))), fs, []))
   \<and> (\<not> (truthy (aln1 a) \<and> truthy (aln2 a)) \<and> parse_xf b fs (xf1 a) = Inr e1 \<and>
      parse_xf b fs (xf2 a) = Inr e2 \<and> (e1 = [] \<or> e2 = [])
    \<longrightarrow> main b fs a = (Some (SysExit Could_not_parse_xf), fs, []))
   \<and> (fst (main b fs a) \<noteq> None
    \<longrightarrow> exit_status (fst (main b fs a)) \<noteq> 0 \<and> fst (snd (main b fs a)) = fs)"
proof (intro conjI impI)
  assume "truthy (aln1 a) \<and> truthy (aln2 a) \<and> parse_aln b fs (aln1 a) = Inr d1 \<and>
      parse_aln b fs (aln2 a) = Inr d2 \<and> common d1 d2 = {}"
  then have "estimate b fs a = Inl (SysExit No_common_tilt_indices)"
    by (simp add: estimate_def aln_mode_cases)
  then show "main b fs a = (Some (SysExit No_common_tilt_indices), fs, [])"
    by (rule main_abort)
next
  assume "truthy (aln1 a) \<and> truthy (aln2 a) \<and> parse_aln b fs (aln1 a) = Inr d1 \<and>
      parse_aln b fs (aln2 a) = Inr d2 \<and> common d1 d2 \<noteq> {} \<and>
      selected (tilt_cutoff a) d1 d2 = {}"
  then have "estimate b fs a = Inl (SysExit (No_entries_within (tilt_cutoff a)))"
    by (simp add: estimate_def aln_mode_cases)
  then show "main b fs a = (Some (SysExit (No_entries_within (tilt_cutoff a))), fs, [])"
    by (rule main_abort)
next
  assume h: "\<not> (truthy (aln1 a) \<and> truthy (aln2 a)) \<and> parse_xf b fs (xf1 a) = Inr e1 \<and>
      parse_xf b fs (xf2 a) = Inr e2 \<and> (e1 = [] \<or> e2 = [])"
  then have c: "(truthy (aln1 a) \<and> truthy (aln2 a)) = False"
    by simp
  have "xf_mode e1 e2 = Inl (SysExit Could_not_parse_xf)"
    using h by (auto simp: xf_mode_def)
  then have "estimate b fs a = Inl (SysExit Could_not_parse_xf)"
    using h by (simp add: estimate_def c)
  then show "main b fs a = (Some (SysExit Could_not_parse_xf), fs, [])"
    by (rule main_abort)
next
  assume "fst (main b fs a) \<noteq> None"
  then show "exit_status (fst (main b fs a)) \<noteq> 0"
    by (rule exit_status_abort)
next
  assume "fst (main b fs a) \<noteq> None"
  then show "fst (snd (main b fs a)) = fs"
    by (rule main_aborts_unchanged)
qed

theorem fatal_conditions_witness:
  "main lits fs_disjoint args_aln = (Some (SysExit No_common_tilt_indices), fs_disjoint, [])
   \<and> main lits fs_steep args_aln = (Some (SysExit (No_entries_within 5)), fs_steep, [])
   \<and> main lits fs_empty_xf args_xf = (Some (SysExit Could_not_parse_xf), fs_empty_xf, [])
   \<and> exit_status (fst (main lits fs_disjoint args_aln)) = 1"
proof -
  have 1: "main lits fs_disjoint args_aln = (Some (SysExit No_common_tilt_indices), fs_disjoint, [])"
    using fatal_conditions [of args_aln lits fs_disjoint dict_one "[(4, (0, 0, 0, 0))]"]
    by (simp add: truthy_args_aln parse_fs_disjoint common_disjoint)
  have 2: "main lits fs_steep args_aln = (Some (SysExit (No_entries_within 5)), fs_steep, [])"
    using fatal_conditions [of args_aln lits fs_steep dict_one "[(0, (0, 0, 0, 60))]"]
    by (simp add: truthy_args_aln parse_fs_steep common_steep selected_steep)
  have 3: "main lits fs_empty_xf args_xf = (Some (SysExit Could_not_parse_xf), fs_empty_xf, [])"
    using fatal_conditions [of args_xf lits fs_empty_xf _ _ "[]" "[(90, 10, 20), (90, 10, 20)]"]
    by (simp add: not_aln_args_xf parse_fs_empty_xf)
  show ?thesis
    by (simp add: 1 2 3)
qed

subsection \<open>C7: the matrix of \<^verbatim>\<open>build_transform\<close>\<close>

text \<open>
  C7. \<^verbatim>\<open>build_transform(dR, dX, dY, flip_z)\<close> produces, row by row, the matrix
  \<open>[[c, -s, 0, dX], [s, c, 0, dY], [0, 0, zsign, 0]]\<close> with \<open>c = cos (radians dR)\<close>,
  \<open>s = sin (radians dR)\<close> and \<open>zsign\<close> equal to \<open>-1\<close> exactly when \<open>flip_z\<close> is true and
  to \<open>1\<close> otherwise: the text has three lines, and the whitespace-separated fields of
  each line are the entries of the row in the format \<^verbatim>\<open>.6f\<close>. For \<open>(0, 0, 0, False)\<close>
  the matrix is \<open>[[1, 0, 0, 0], [0, 1, 0, 0], [0, 0, 1, 0]]\<close>.
\<close>

theorem build_transform_matrix:
  "map split_ws (keep_lines (build_transform dR dX dY flip)) =
     map (map fmt_6f) (rigid_matrix dR dX dY flip)
   \<and> rigid_matrix 0 0 0 False = [[1, 0, 0, 0], [0, 1, 0, 0], [0, 0, 1, 0]]"
proof
  show "map split_ws (keep_lines (build_transform dR dX dY flip)) =
     map (map fmt_6f) (rigid_matrix dR dX dY flip)"
    by (simp only: keep_lines_build_transform rigid_matrix_def Let_def list.map split_ws_row
        split_ws_last_row)
  show "rigid_matrix 0 0 0 False = [[1, 0, 0, 0], [0, 1, 0, 0], [0, 0, 1, 0]]"
    by (simp add: rigid_matrix_def radians_def)
qed

text \<open>The second example of the specification: a rotation by 90 degrees, with the flip.\<close>

theorem build_transform_matrix_witness:
  "map split_ws (keep_lines (build_transform 90 5 (- 3) True)) =
     [[''0.000000'', ''-1.000000'', ''0.000000'', ''5.000000''],
      [''1.000000'', ''0.000000'', ''0.000000'', ''-3.000000''],
      [''0.000000'', ''0.000000'', ''-1.000000'', ''0.000000'']]"
  using build_transform_matrix [of 90 5 "- 3" True]
  by (simp add: rigid_matrix_def radians_90 eval_fmt)

subsection \<open>C8: the layout of the output\<close>

text \<open>
  C8. For every input the output has 3 lines, the last one ended by a newline as the
  others; but its third line starts with the literal \<^verbatim>\<open>0.000000\<close>: the first value of
  that line, which is not negative, has no leading space, unlike the formatted values and
  the other literal zeros, which all carry the column of the sign. So the claim fails on
  the first field of the third line, for every input; the text for
  \<open>(90, 5, -3, True)\<close> shows it.
\<close>

theorem build_transform_third_line:
  "length (keep_lines (build_transform dR dX dY flip)) = 3
   \<and> keep_lines (build_transform dR dX dY flip) ! 2 =
       ''0.000000  0.000000 '' @ fmt_space_6f (if flip then - 1 else 1) @ ''  0.000000\<newline>''
   \<and> build_transform 90 5 (- 3) True =
       '' 0.000000 -1.000000  0.000000  5.000000\<newline> 1.000000  0.000000  0.000000 -3.000000\<newline>0.000000  0.000000 -1.000000  0.000000\<newline>''"
  by (simp add: keep_lines_build_transform Let_def build_transform_90_flip)

subsection \<open>C9: an \<^verbatim>\<open>.aln\<close> path for one tomogram and an \<^verbatim>\<open>.xf\<close> path for the other\<close>

text \<open>
  C9, as stated, fails: the arguments \<^verbatim>\<open>--aln1 one.aln --xf2 second.xf\<close> are accepted
  by the two mutually exclusive groups, and the run then takes the \<^verbatim>\<open>.xf\<close> branch
  and ends with an uncaught \<^verbatim>\<open>TypeError\<close>, from \<^verbatim>\<open>open(None)\<close>, without an estimate.
\<close>

theorem mixed_formats_counterexample:
  "accepted args_mixed
   \<and> main lits fs_mixed args_mixed = (Some (Uncaught TypeError), fs_mixed, [])"
  by (simp add: accepted_def args_mixed_def main_def estimate_def truthy_def parse_xf_def
      open_read_def)

text \<open>
  C9, amended. The format of each tomogram's input is chosen independently as far as the
  parsing of the arguments goes: an invocation with an \<^verbatim>\<open>.aln\<close> path for one tomogram
  and an \<^verbatim>\<open>.xf\<close> path for the other is accepted there. But the program has the two
  modes \<^verbatim>\<open>.aln\<close>/\<^verbatim>\<open>.aln\<close> and \<^verbatim>\<open>.xf\<close>/\<^verbatim>\<open>.xf\<close> only: a mixed invocation gives no
  estimate; the run does not end normally, prints nothing and writes no output file.
\<close>

theorem mixed_formats_no_estimate:
  assumes "accepted a" and "mixed a"
  shows "\<exists>e. main b fs a = (Some e, fs, [])"
proof -
  have c: "(truthy (aln1 a) \<and> truthy (aln2 a)) = False"
    using assms(2) by (auto simp: mixed_def truthy_def)
  have "\<exists>e. estimate b fs a = Inl e"
  proof (cases "xf1 a")
    case None
    then show ?thesis
      by (simp add: estimate_def c parse_xf_def open_read_def)
  next
    case (Some p)
    then have x2: "xf2 a = None"
      using assms(2) by (auto simp: mixed_def)
    show ?thesis
      by (cases "parse_xf b fs (xf1 a)")
        (simp_all add: estimate_def c x2 parse_xf_def [of b fs None] open_read_def)
  qed
  then show ?thesis
    using main_abort by blast
qed

theorem mixed_formats_no_estimate_witness:
  "accepted args_mixed \<and> mixed args_mixed
   \<and> (\<exists>e. main lits fs_mixed args_mixed = (Some e, fs_mixed, []))"
proof -
  have a: "accepted args_mixed" and m: "mixed args_mixed"
    by (simp_all add: accepted_def mixed_def args_mixed_def)
  show ?thesis
    using mixed_formats_no_estimate [OF a m, of lits fs_mixed] a m by simp
qed

subsection \<open>C10: a field of an \<^verbatim>\<open>.xf\<close> line that is not a number\<close>

text \<open>
  C10, as stated, fails on a comment line: a line that starts with \<^verbatim>\<open>#\<close> is skipped
  before its fields are counted, also when it has 6 fields of which the first is not a
  number. The file \<open>xf_comment\<close> parses to the empty list, without an exception.
\<close>

theorem comment_with_six_fields_counterexample:
  "6 \<le> length (split_ws (strip xf_comment))
   \<and> py_float lits (split_ws (strip xf_comment) ! 0) = None
   \<and> parse_xf lits [''a.xf'' \<mapsto> xf_comment] (Some ''a.xf'') = Inr []"
  by (simp add: xf_comment_def strip_def is_space_def split_ws.simps lits_def lit_float_def
      parse_xf_def open_read_def file_lines_def xf_line_def startswith_hash_def)

text \<open>
  C10, amended. For every line that is not a comment and has at least 6 fields, one of
  the first 6 not a valid float literal, \<^verbatim>\<open>parse_xf\<close> raises \<^verbatim>\<open>ValueError\<close>; in
  \<^verbatim>\<open>.xf\<close> mode nothing catches it: the run ends with the exception (not with
  \<^verbatim>\<open>sys.exit\<close>), prints nothing and writes no file.
\<close>

theorem parse_xf_bad_float_raises:
  assumes "open_read fs path = Inr txt"
    and "l \<in> set (file_lines txt)"
    and "\<not> startswith_hash (strip l)"
    and "6 \<le> length (split_ws (strip l))"
    and "i < 6"
    and "py_float b (split_ws (strip l) ! i) = None"
  shows "parse_xf b fs path = Inl ValueError
    \<and> (\<not> (truthy (aln1 a) \<and> truthy (aln2 a)) \<and> (path = xf1 a \<or>
          path = xf2 a \<and> (\<exists>e1. parse_xf b fs (xf1 a) = Inr e1))
        \<longrightarrow> main b fs a = (Some (Uncaught ValueError), fs, []))"
proof -
  have q: "qualifying l"
    using assms(3,4) by (rule qualifyingI)
  have "xf_fields b l ! i = None"
    using q assms(5,6) by (simp add: xf_fields_nth)
  then have "None \<in> set (xf_fields b l)"
    using xf_fields_length [OF q, of b] assms(5) by (metis nth_mem)
  then have "xf_loop b (file_lines txt) [] = Inl ValueError"
    using assms(2) q by (intro xf_loop_error)
  then have p: "parse_xf b fs path = Inl ValueError"
    using assms(1) by (simp add: parse_xf_def)
  have "main b fs a = (Some (Uncaught ValueError), fs, [])"
    if "\<not> (truthy (aln1 a) \<and> truthy (aln2 a))"
      and "path = xf1 a \<or> path = xf2 a \<and> (\<exists>e1. parse_xf b fs (xf1 a) = Inr e1)"
    using that p by (auto simp: main_def estimate_def)
  with p show ?thesis by blast
qed

theorem parse_xf_bad_float_raises_witness:
  "parse_xf lits [''a.xf'' \<mapsto> xf_bad] (Some ''a.xf'') = Inl ValueError
   \<and> main lits [''a.xf'' \<mapsto> xf_bad]
        \<lparr>aln1 = None, xf1 = Some ''a.xf'', aln2 = None, xf2 = Some ''a.xf'', out = ''o.xf'',
         tilt_cutoff = 5, flip_z = False\<rparr>
      = (Some (Uncaught ValueError), [''a.xf'' \<mapsto> xf_bad], [])"
proof -
  let ?l = "''1 0 x 1 10 20\<newline>''"
  have o: "open_read [''a.xf'' \<mapsto> xf_bad] (Some ''a.xf'') = Inr xf_bad"
    by (simp add: open_read_def)
  have m: "?l \<in> set (file_lines xf_bad)"
    by (simp add: xf_bad_def file_lines_def)
  have s: "split_ws (strip ?l) = [''1'', ''0'', ''x'', ''1'', ''10'', ''20'']"
    by (simp add: strip_def is_space_def split_ws.simps)
  have c: "\<not> startswith_hash (strip ?l)"
    by (simp add: strip_def is_space_def startswith_hash_def)
  have n: "6 \<le> length (split_ws (strip ?l))" "(2::nat) < 6"
    "py_float lits (split_ws (strip ?l) ! 2) = None"
    by (simp_all add: s lits_def lit_float_def)
  show ?thesis
    using parse_xf_bad_float_raises [OF o m c n, of
        "\<lparr>aln1 = None, xf1 = Some ''a.xf'', aln2 = None, xf2 = Some ''a.xf'', out = ''o.xf'',
         tilt_cutoff = 5, flip_z = False\<rparr>"]
    by (simp add: truthy_def)
qed

end
